theory Spec2Isabelle
  imports Complex_Main "HOL-Library.AList"
begin

section \<open>Transform algebra\<close>

text \<open>
  Poses and static offsets are 4x4 homogeneous matrices (numpy arrays in the source).
  The entries are modelled as exact reals: floating-point rounding is abstracted, so an
  equality "within numeric tolerance" of the source is an exact equality here.
\<close>

datatype vec4 = Vec4 real real real real

datatype mat4 = Mat4 vec4 vec4 vec4 vec4

fun dot4 :: "vec4 \<Rightarrow> vec4 \<Rightarrow> real" where
  "dot4 (Vec4 a b c d) (Vec4 x y z w) = a * x + b * y + c * z + d * w"

definition transpose4 :: "mat4 \<Rightarrow> mat4" where
  "transpose4 A =
     (case A of
        Mat4 (Vec4 a00 a01 a02 a03) (Vec4 a10 a11 a12 a13)
             (Vec4 a20 a21 a22 a23) (Vec4 a30 a31 a32 a33) \<Rightarrow>
          Mat4 (Vec4 a00 a10 a20 a30) (Vec4 a01 a11 a21 a31)
               (Vec4 a02 a12 a22 a32) (Vec4 a03 a13 a23 a33))"

fun row_times :: "vec4 \<Rightarrow> mat4 \<Rightarrow> vec4" where
  "row_times r (Mat4 c0 c1 c2 c3) = Vec4 (dot4 r c0) (dot4 r c1) (dot4 r c2) (dot4 r c3)"

text \<open>\<open>matmul A B\<close> is numpy's \<open>A @ B\<close> on 4x4 arrays.\<close>

fun matmul :: "mat4 \<Rightarrow> mat4 \<Rightarrow> mat4" where
  "matmul (Mat4 r0 r1 r2 r3) B =
     (let Bt = transpose4 B
      in Mat4 (row_times r0 Bt) (row_times r1 Bt) (row_times r2 Bt) (row_times r3 Bt))"

text \<open>\<open>eye4\<close> is \<open>np.eye(4)\<close>.\<close>

definition eye4 :: mat4 where
  "eye4 = Mat4 (Vec4 1 0 0 0) (Vec4 0 1 0 0) (Vec4 0 0 1 0) (Vec4 0 0 0 1)"

fun vscale :: "real \<Rightarrow> vec4 \<Rightarrow> vec4" where
  "vscale k (Vec4 a b c d) = Vec4 (k * a) (k * b) (k * c) (k * d)"

fun mscale :: "real \<Rightarrow> mat4 \<Rightarrow> mat4" where
  "mscale k (Mat4 r0 r1 r2 r3) = Mat4 (vscale k r0) (vscale k r1) (vscale k r2) (vscale k r3)"

text \<open>Determinant and adjugate of a general 4x4 matrix, by 2x2 sub-determinants.\<close>

definition det4 :: "mat4 \<Rightarrow> real" where
  "det4 A =
     (case A of
        Mat4 (Vec4 a00 a01 a02 a03) (Vec4 a10 a11 a12 a13)
             (Vec4 a20 a21 a22 a23) (Vec4 a30 a31 a32 a33) \<Rightarrow>
          (let s0 = a00 * a11 - a10 * a01; s1 = a00 * a12 - a10 * a02;
               s2 = a00 * a13 - a10 * a03; s3 = a01 * a12 - a11 * a02;
               s4 = a01 * a13 - a11 * a03; s5 = a02 * a13 - a12 * a03;
               c5 = a22 * a33 - a32 * a23; c4 = a21 * a33 - a31 * a23;
               c3 = a21 * a32 - a31 * a22; c2 = a20 * a33 - a30 * a23;
               c1 = a20 * a32 - a30 * a22; c0 = a20 * a31 - a30 * a21
           in s0 * c5 - s1 * c4 + s2 * c3 + s3 * c2 - s4 * c1 + s5 * c0))"

definition adjugate4 :: "mat4 \<Rightarrow> mat4" where
  "adjugate4 A =
     (case A of
        Mat4 (Vec4 a00 a01 a02 a03) (Vec4 a10 a11 a12 a13)
             (Vec4 a20 a21 a22 a23) (Vec4 a30 a31 a32 a33) \<Rightarrow>
          (let s0 = a00 * a11 - a10 * a01; s1 = a00 * a12 - a10 * a02;
               s2 = a00 * a13 - a10 * a03; s3 = a01 * a12 - a11 * a02;
               s4 = a01 * a13 - a11 * a03; s5 = a02 * a13 - a12 * a03;
               c5 = a22 * a33 - a32 * a23; c4 = a21 * a33 - a31 * a23;
               c3 = a21 * a32 - a31 * a22; c2 = a20 * a33 - a30 * a23;
               c1 = a20 * a32 - a30 * a22; c0 = a20 * a31 - a30 * a21
           in Mat4
             (Vec4 (a11 * c5 - a12 * c4 + a13 * c3) (- a01 * c5 + a02 * c4 - a03 * c3)
                   (a31 * s5 - a32 * s4 + a33 * s3) (- a21 * s5 + a22 * s4 - a23 * s3))
             (Vec4 (- a10 * c5 + a12 * c2 - a13 * c1) (a00 * c5 - a02 * c2 + a03 * c1)
                   (- a30 * s5 + a32 * s2 - a33 * s1) (a20 * s5 - a22 * s2 + a23 * s1))
             (Vec4 (a10 * c4 - a11 * c2 + a13 * c0) (- a00 * c4 + a01 * c2 - a03 * c0)
                   (a30 * s4 - a31 * s2 + a33 * s0) (- a20 * s4 + a21 * s2 - a23 * s0))
             (Vec4 (- a10 * c3 + a11 * c1 - a12 * c0) (a00 * c3 - a01 * c1 + a02 * c0)
                   (- a30 * s3 + a31 * s1 - a32 * s0) (a20 * s3 - a21 * s1 + a22 * s0))))"

text \<open>The exceptions the modelled code can raise.\<close>

datatype error =
    KeyError
  | IndexError
  | TypeError
  | NotImplementedError
  | AssertionError
  | LinAlgError
  | CommandError
  | CancelledError
  | OSError

text \<open>
  Modelled from the spec: \<open>invertTransform\<close> and \<open>concatenateTransforms\<close> are imported
  from \<open>NaviNIBS.util.Transforms\<close>, which is not among the sources. The spec's Transform
  Algebra gives \<open>invert\<close> as a general 4x4 inverse (not assumed rigid) that fails on a
  matrix that is not invertible, and \<open>compose\<close> as a chain multiply over the list. The
  order of the factors is the one the panel itself relies on: the refresh pass writes the
  tool mesh offset as \<open>toolToTrackerTransf @ toolStlToToolTransf\<close>, the drag callback
  writes the same offset as
  \<open>concatenateTransforms([toolStlToToolTransf, toolToTrackerTransf])\<close>, so the first
  element of the list is the transform applied first.
\<close>

definition invertTransform :: "mat4 \<Rightarrow> error + mat4" where
  "invertTransform A =
     (if det4 A = 0 then Inl LinAlgError
      else Inr (mscale (1 / det4 A) (adjugate4 A)))"

definition concatenateTransforms :: "mat4 list \<Rightarrow> mat4" where
  "concatenateTransforms transfs = foldl (\<lambda>out T. matmul T out) eye4 transfs"

section \<open>Timestamped poses and the positions client\<close>

text \<open>
  \<open>TimestampedToolPosition\<close> (from \<open>NaviNIBS.Devices\<close>) as the panel uses it: the
  fields \<open>time\<close>, \<open>transf\<close> (a matrix or \<open>None\<close>) and \<open>relativeTo\<close> (a key or
  \<open>None\<close>, the default when the panel builds one without it).
\<close>

record TimestampedToolPosition =
  time :: real
  transf :: "mat4 option"
  relativeTo :: "string option"

text \<open>
  Modelled from the spec: \<open>SimulatedToolPositionsClient\<close> (the Pose Store) is not among
  the sources. It holds the latest pose per key (\<open>latestPositions\<close>, a dict: an
  insertion-ordered association list with one entry per key). \<open>serverAcks\<close> is the
  server's answer to a record command: the spec's \<open>recordNewPoseSync\<close> blocks until
  acknowledged and updates the local cache on success, and fails with a command error,
  the cache left unchanged, on rejection or timeout. The asynchronous variant has the
  same semantics. \<open>getLatest\<close> is a lookup that never blocks; the panel's call
  \<open>getLatestTransf(key)\<close> raises \<open>KeyError\<close> for a key never seen (the panel catches
  it), and \<open>getLatestTransf(key, None)\<close> returns the default instead.
\<close>

record SimulatedToolPositionsClient =
  latestPositions :: "(string \<times> TimestampedToolPosition) list"
  serverAcks :: "string \<Rightarrow> TimestampedToolPosition \<Rightarrow> bool"

definition getLatestTransf ::
  "SimulatedToolPositionsClient \<Rightarrow> string \<Rightarrow> error + mat4 option" where
  "getLatestTransf c k =
     (case map_of (latestPositions c) k of
        None \<Rightarrow> Inl KeyError
      | Some p \<Rightarrow> Inr (transf p))"

definition getLatestTransf_default ::
  "SimulatedToolPositionsClient \<Rightarrow> string \<Rightarrow> mat4 option \<Rightarrow> mat4 option" where
  "getLatestTransf_default c k dflt =
     (case map_of (latestPositions c) k of
        None \<Rightarrow> dflt
      | Some p \<Rightarrow> transf p)"

definition recordNewPosition_sync ::
  "SimulatedToolPositionsClient \<Rightarrow> string \<Rightarrow> TimestampedToolPosition \<Rightarrow>
   error + SimulatedToolPositionsClient" where
  "recordNewPosition_sync c k position =
     (if serverAcks c k position
      then Inr (c\<lparr>latestPositions := AList.update k position (latestPositions c)\<rparr>)
      else Inl CommandError)"

definition recordNewPosition_async ::
  "SimulatedToolPositionsClient \<Rightarrow> string \<Rightarrow> TimestampedToolPosition \<Rightarrow>
   error + SimulatedToolPositionsClient" where
  "recordNewPosition_async c k position =
     (if serverAcks c k position
      then Inr (c\<lparr>latestPositions := AList.update k position (latestPositions c)\<rparr>)
      else Inl CommandError)"

section \<open>The session: tools, persisted poses, subject registration\<close>

text \<open>
  A tool of \<open>session.tools\<close>, with the attributes the panel reads. \<open>isSubjectTracker\<close>
  is \<open>isinstance(tool, SubjectTracker)\<close>. The panel tests \<open>toolToTrackerTransf\<close> and
  \<open>trackerStlToTrackerTransf\<close> for \<open>None\<close> and uses \<open>toolStlToToolTransf\<close> as a
  matrix. Meshes are opaque (a number names one).
\<close>

record Tool =
  key :: string
  trackerKey :: string
  isActive :: bool
  isSubjectTracker :: bool
  doRenderTracker :: bool
  doRenderTool :: bool
  trackerStlFilepath :: "string option"
  toolStlFilepath :: "string option"
  toolToTrackerTransf :: "mat4 option"
  toolStlToToolTransf :: mat4
  trackerStlToTrackerTransf :: "mat4 option"
  trackerSurf :: nat
  toolSurf :: nat
  trackerColor :: "string option"
  toolColor :: "string option"
  trackerOpacity :: "real option"
  toolOpacity :: "real option"

text \<open>
  \<open>SimulatedToolPose\<close>, an entry of the persisted configuration \<open>config.poses\<close>; the
  panel constructs one from a key alone, leaving the other fields at \<open>None\<close>.
\<close>

record SimulatedToolPose =
  pose_key :: string
  pose_transf :: "mat4 option"
  pose_relativeTo :: "string option"

record Session =
  tools :: "(string \<times> Tool) list"
  config_poses :: "(string \<times> SimulatedToolPose) list"
  trackerToMRITransf :: "mat4 option"
  skinSurf :: "nat option"

section \<open>The plotter and the panel\<close>

text \<open>
  An actor of the plotter. \<open>handle\<close> stands for the identity of the Python object (the
  panel finds a picked actor with \<open>is\<close>); a new actor is visible and has no user
  transform.
\<close>

record Actor =
  handle :: nat
  visibility :: bool
  userTransform :: "mat4 option"
  actorName :: string
  actorMesh :: nat
  actorColor :: "string option"
  actorOpacity :: real

text \<open>
  Modelled from the spec: the plotter is the opaque Renderer collaborator. \<open>addMesh\<close>
  returns a new handle and puts the actor into the scene, \<open>remove_actor\<close> takes it out;
  \<open>renderCount\<close> counts the redraw requests \<open>render()\<close> the panel makes.
\<close>

record BackgroundPlotter =
  sceneActors :: "nat list"
  nextHandle :: nat
  renderCount :: nat

definition addMesh ::
  "BackgroundPlotter \<Rightarrow> nat \<Rightarrow> string option \<Rightarrow> string \<Rightarrow> real \<Rightarrow> string \<Rightarrow>
   Actor \<times> BackgroundPlotter" where
  "addMesh p mesh color defaultMeshColor opacity name =
     (\<lparr>handle = nextHandle p, visibility = True, userTransform = None, actorName = name,
       actorMesh = mesh,
       actorColor = (case color of None \<Rightarrow> Some defaultMeshColor | Some c \<Rightarrow> Some c),
       actorOpacity = opacity\<rparr>,
      p\<lparr>sceneActors := sceneActors p @ [nextHandle p], nextHandle := Suc (nextHandle p)\<rparr>)"


definition render :: "BackgroundPlotter \<Rightarrow> BackgroundPlotter" where
  "render p = p\<lparr>renderCount := Suc (renderCount p)\<rparr>"

definition setActorUserTransform :: "Actor \<Rightarrow> mat4 \<Rightarrow> Actor" where
  "setActorUserTransform a T = a\<lparr>userTransform := Some T\<rparr>"

text \<open>
  The panel's state: \<open>_actors\<close> (a dict from actor key to actor),
  \<open>_currentlyMovingActors\<close> (the MovingSet), the positions client, the one-shot flag
  \<open>_hasRestoredPositions\<close>, the initialisation flags of the base class, the plotter and
  the session.
\<close>

record SimulatedToolsPanel =
  actors :: "(string \<times> Actor) list"
  currentlyMovingActors :: "string set"
  positionsClient :: SimulatedToolPositionsClient
  hasRestoredPositions :: bool
  hasInitialized :: bool
  isInitializing :: bool
  plotter :: BackgroundPlotter
  session :: Session

text \<open>\<open>endswith s suf\<close> is Python's \<open>s.endswith(suf)\<close>.\<close>

definition endswith :: "string \<Rightarrow> string \<Rightarrow> bool" where
  "endswith s suf = (length suf \<le> length s \<and> drop (length s - length suf) s = suf)"

section \<open>Interactive manipulation: the drag callback\<close>

text \<open>
  \<open>onNewTransf\<close>, the callback of \<open>selectAndMoveTool\<close>, for the picked actor key and
  tool: it backs the static offset out of the dragged world transform and records the
  result under the tool's tracker key. \<open>now\<close> is the reading of \<open>time.time()\<close>. The
  result is the exception raised, if any, and the state the call leaves.
\<close>

definition onNewTransf ::
  "real \<Rightarrow> string \<Rightarrow> Tool \<Rightarrow> mat4 \<Rightarrow> SimulatedToolsPanel \<Rightarrow>
   error option \<times> SimulatedToolsPanel" where
  "onNewTransf now pickedKey pickedTool transf_world s =
     (case
        (if endswith pickedKey ''_tool'' then
           (case toolToTrackerTransf pickedTool of
              None \<Rightarrow> Inl TypeError
            | Some toolToTracker \<Rightarrow>
                (case invertTransform
                        (concatenateTransforms [toolStlToToolTransf pickedTool, toolToTracker]) of
                   Inl e \<Rightarrow> Inl e
                 | Inr inverted \<Rightarrow> Inr (concatenateTransforms [inverted, transf_world])))
         else if endswith pickedKey ''_tracker'' then
           (case trackerStlToTrackerTransf pickedTool of
              None \<Rightarrow> Inl TypeError
            | Some trackerStlToTracker \<Rightarrow>
                (case invertTransform trackerStlToTracker of
                   Inl e \<Rightarrow> Inl e
                 | Inr inverted \<Rightarrow> Inr (concatenateTransforms [inverted, transf_world])))
         else Inl NotImplementedError)
      of
        Inl e \<Rightarrow> (Some e, s)
      | Inr newTrackerToWorldTransf \<Rightarrow>
          (case recordNewPosition_sync (positionsClient s) (trackerKey pickedTool)
                  \<lparr>time = now, transf = Some newTrackerToWorldTransf, relativeTo = None\<rparr> of
             Inl e \<Rightarrow> (Some e, s)
           | Inr c \<Rightarrow> (None, s\<lparr>positionsClient := c\<rparr>)))"

section \<open>The refresh pass: \<open>_onLatestPositionsChanged\<close>\<close>

text \<open>
  Startup restore (the loop over \<open>config.poses.items()\<close>): a persisted pose with a
  transform is recorded under its tracker key when the client has no pose for the key
  (\<open>getLatestTransf\<close> raised \<open>KeyError\<close>). \<open>clock i\<close> is the reading of
  \<open>time.time()\<close> in iteration \<open>i\<close>. An exception of the record command leaves the loop
  with the client as it is then.
\<close>

fun restorePositions ::
  "(nat \<Rightarrow> real) \<Rightarrow> nat \<Rightarrow> (string \<times> SimulatedToolPose) list \<Rightarrow>
   SimulatedToolPositionsClient \<Rightarrow> error option \<times> SimulatedToolPositionsClient" where
  "restorePositions clock i [] c = (None, c)"
| "restorePositions clock i ((tk, pose) # rest) c =
     (if pose_transf pose = None then restorePositions clock (Suc i) rest c
      else
        (case getLatestTransf c tk of
           Inr _ \<Rightarrow> restorePositions clock (Suc i) rest c
         | Inl e \<Rightarrow>
             if e = KeyError then
               (case recordNewPosition_sync c tk
                       \<lparr>time = clock i, transf = pose_transf pose,
                        relativeTo = pose_relativeTo pose\<rparr> of
                  Inl e' \<Rightarrow> (Some e', c)
                | Inr c' \<Rightarrow> restorePositions clock (Suc i) rest c')
             else (Some e, c)))"

text \<open>
  The mirror of the live poses into the persisted configuration (the loop over
  \<open>session.tools.items()\<close> that writes \<open>config.poses[tool.trackerKey].transf\<close>).
\<close>

fun mirrorPoses ::
  "SimulatedToolPositionsClient \<Rightarrow> (string \<times> Tool) list \<Rightarrow>
   (string \<times> SimulatedToolPose) list \<Rightarrow> (string \<times> SimulatedToolPose) list" where
  "mirrorPoses c [] poses = poses"
| "mirrorPoses c ((k, tool) # rest) poses =
     (let T = getLatestTransf_default c (trackerKey tool) None
      in if T = None \<and> map_of poses (trackerKey tool) = None then mirrorPoses c rest poses
         else mirrorPoses c rest
                (AList.map_entry (trackerKey tool) (\<lambda>p. p\<lparr>pose_transf := T\<rparr>)
                   (if map_of poses (trackerKey tool) = None
                    then AList.update (trackerKey tool)
                           \<lparr>pose_key = trackerKey tool, pose_transf = None,
                            pose_relativeTo = None\<rparr> poses
                    else poses)))"

text \<open>The actor keys of a tool: \<open>actorKeysForTool\<close> of the rendering loop.\<close>

definition actorKeysForTool :: "string \<Rightarrow> Tool \<Rightarrow> string list" where
  "actorKeysForTool k tool =
     [k @ ''_tracker'', k @ ''_tool''] @ (if isSubjectTracker tool then [k @ ''_subject''] else [])"

text \<open>
  The branch for a tool that is inactive or has no pose: every actor of the tool that
  exists and is visible gets \<open>VisibilityOff()\<close>.
\<close>

fun hideActors :: "string list \<Rightarrow> (string \<times> Actor) list \<Rightarrow> (string \<times> Actor) list" where
  "hideActors [] acts = acts"
| "hideActors (actorKey # rest) acts =
     hideActors rest
       (case map_of acts actorKey of
          None \<Rightarrow> acts
        | Some a \<Rightarrow>
            if visibility a then AList.update actorKey (a\<lparr>visibility := False\<rparr>) acts
            else acts)"

text \<open>
  The inner loop \<open>for toolOrTracker in ('tracker', 'tool')\<close> reads the tool's attributes
  by name (\<open>getattr\<close>); the two values of the loop variable are a datatype here.
\<close>

datatype ToolOrTracker = OfTracker | OfTool

fun partName :: "ToolOrTracker \<Rightarrow> string" where
  "partName OfTracker = ''tracker''"
| "partName OfTool = ''tool''"

fun doRenderOf :: "ToolOrTracker \<Rightarrow> Tool \<Rightarrow> bool" where
  "doRenderOf OfTracker tool = doRenderTracker tool"
| "doRenderOf OfTool tool = doRenderTool tool"

fun stlFilepathOf :: "ToolOrTracker \<Rightarrow> Tool \<Rightarrow> string option" where
  "stlFilepathOf OfTracker tool = trackerStlFilepath tool"
| "stlFilepathOf OfTool tool = toolStlFilepath tool"

fun surfOf :: "ToolOrTracker \<Rightarrow> Tool \<Rightarrow> nat" where
  "surfOf OfTracker tool = trackerSurf tool"
| "surfOf OfTool tool = toolSurf tool"

fun colorOf :: "ToolOrTracker \<Rightarrow> Tool \<Rightarrow> string option" where
  "colorOf OfTracker tool = trackerColor tool"
| "colorOf OfTool tool = toolColor tool"

fun opacityOf :: "ToolOrTracker \<Rightarrow> Tool \<Rightarrow> real option" where
  "opacityOf OfTracker tool = trackerOpacity tool"
| "opacityOf OfTool tool = toolOpacity tool"

text \<open>\<open>toolOrTrackerStlToTrackerTransf\<close>: the static offset of the mesh.\<close>

fun stlToTrackerTransfOf :: "ToolOrTracker \<Rightarrow> Tool \<Rightarrow> mat4 option" where
  "stlToTrackerTransfOf OfTool tool =
     (case toolToTrackerTransf tool of
        None \<Rightarrow> None
      | Some toolToTracker \<Rightarrow> Some (matmul toolToTracker (toolStlToToolTransf tool)))"
| "stlToTrackerTransfOf OfTracker tool = trackerStlToTrackerTransf tool"

text \<open>
  One round of the inner loop for an actor key that is not being moved: it decides
  \<open>doShow\<close>, creates the actor on first need and sets its user transform to
  \<open>concatenateTransforms([offset, latest pose])\<close>.
\<close>

definition renderToolOrTracker ::
  "string \<Rightarrow> Tool \<Rightarrow> string \<Rightarrow> ToolOrTracker \<Rightarrow> bool \<times> SimulatedToolsPanel \<Rightarrow>
   error option \<times> bool \<times> SimulatedToolsPanel" where
  "renderToolOrTracker k tool actorKey toolOrTracker st =
     (case st of (doShow, s) \<Rightarrow>
        if actorKey = k @ ''_'' @ partName toolOrTracker then
          if \<not> doRenderOf toolOrTracker tool then (None, False, s)
          else if stlFilepathOf toolOrTracker tool \<noteq> None then
            (case stlToTrackerTransfOf toolOrTracker tool of
               None \<Rightarrow> (None, doShow, s)
             | Some stlToTracker \<Rightarrow>
                 (let s1 =
                        (if map_of (actors s) actorKey = None then
                           (case addMesh (plotter s) (surfOf toolOrTracker tool)
                                   (colorOf toolOrTracker tool) ''#444444''
                                   (case opacityOf toolOrTracker tool of
                                      None \<Rightarrow> 1 | Some x \<Rightarrow> x)
                                   actorKey of
                              (a, p) \<Rightarrow>
                                s\<lparr>actors := AList.update actorKey a (actors s), plotter := p\<rparr>)
                         else s)
                  in case map_of (actors s1) actorKey of
                       None \<Rightarrow> (Some KeyError, True, s1)
                     | Some a \<Rightarrow>
                         (case getLatestTransf (positionsClient s1) (trackerKey tool) of
                            Inl e \<Rightarrow> (Some e, True, s1)
                          | Inr None \<Rightarrow> (Some TypeError, True, s1)
                          | Inr (Some pose) \<Rightarrow>
                              (None, True,
                               s1\<lparr>actors :=
                                     AList.update actorKey
                                       (setActorUserTransform a
                                          (concatenateTransforms [stlToTracker, pose]))
                                       (actors s1),
                                   plotter := render (plotter s1)\<rparr>))))
          else (None, False, s)
        else (None, doShow, s))"

text \<open>
  The subject surface of a \<open>SubjectTracker\<close>: shown when the registration and the skin
  surface exist, placed at \<open>latest pose @ invertTransform(trackerToMRITransf)\<close>. The
  source creates this actor with the plotter's \<open>add_mesh\<close> and a fixed colour; it is
  \<open>addMesh\<close> with that colour here.
\<close>

definition renderSubject ::
  "Tool \<Rightarrow> string \<Rightarrow> bool \<times> SimulatedToolsPanel \<Rightarrow>
   error option \<times> bool \<times> SimulatedToolsPanel" where
  "renderSubject tool actorKey st =
     (case st of (doShow, s) \<Rightarrow>
        if isSubjectTracker tool \<and> actorKey = key tool @ ''_subject'' then
          (case trackerToMRITransf (session s) of
             None \<Rightarrow> (None, doShow, s)
           | Some trackerToMRI \<Rightarrow>
               (case skinSurf (session s) of
                  None \<Rightarrow> (None, doShow, s)
                | Some surf \<Rightarrow>
                    (let s1 =
                           (if map_of (actors s) actorKey = None then
                              (case addMesh (plotter s) surf (Some ''#d9a5b2'') ''#d9a5b2''
                                      (8 / 10) actorKey of
                                 (a, p) \<Rightarrow>
                                   s\<lparr>actors := AList.update actorKey a (actors s),
                                     plotter := p\<rparr>)
                            else s)
                     in case map_of (actors s1) actorKey of
                          None \<Rightarrow> (Some KeyError, True, s1)
                        | Some a \<Rightarrow>
                            (case getLatestTransf (positionsClient s1) (trackerKey tool) of
                               Inl e \<Rightarrow> (Some e, True, s1)
                             | Inr None \<Rightarrow> (Some TypeError, True, s1)
                             | Inr (Some pose) \<Rightarrow>
                                 (case invertTransform trackerToMRI of
                                    Inl e \<Rightarrow> (Some e, True, s1)
                                  | Inr inverted \<Rightarrow>
                                      (None, True,
                                       s1\<lparr>actors :=
                                             AList.update actorKey
                                               (setActorUserTransform a (matmul pose inverted))
                                               (actors s1),
                                           plotter := render (plotter s1)\<rparr>))))))
        else (None, doShow, s))"

text \<open>The visibility reconciliation at the end of an actor key's round.\<close>

definition reconcileVisibility :: "string \<Rightarrow> bool \<Rightarrow> SimulatedToolsPanel \<Rightarrow> SimulatedToolsPanel" where
  "reconcileVisibility actorKey doShow s =
     (case map_of (actors s) actorKey of
        None \<Rightarrow> s
      | Some a \<Rightarrow>
          if doShow \<and> \<not> visibility a then
            s\<lparr>actors := AList.update actorKey (a\<lparr>visibility := True\<rparr>) (actors s),
              plotter := render (plotter s)\<rparr>
          else if \<not> doShow \<and> visibility a then
            s\<lparr>actors := AList.update actorKey (a\<lparr>visibility := False\<rparr>) (actors s),
              plotter := render (plotter s)\<rparr>
          else s)"

text \<open>
  The body of \<open>for actorKey in actorKeysForTool\<close> for a tool that is active and has a
  pose: an actor key in the MovingSet is skipped first.
\<close>

definition updateActor ::
  "string \<Rightarrow> Tool \<Rightarrow> string \<Rightarrow> SimulatedToolsPanel \<Rightarrow> error option \<times> SimulatedToolsPanel" where
  "updateActor k tool actorKey s =
     (if actorKey \<in> currentlyMovingActors s then (None, s)
      else
        (case renderToolOrTracker k tool actorKey OfTracker (False, s) of
           (Some e, _, s1) \<Rightarrow> (Some e, s1)
         | (None, doShow1, s1) \<Rightarrow>
             (case renderToolOrTracker k tool actorKey OfTool (doShow1, s1) of
                (Some e, _, s2) \<Rightarrow> (Some e, s2)
              | (None, doShow2, s2) \<Rightarrow>
                  (case renderSubject tool actorKey (doShow2, s2) of
                     (Some e, _, s3) \<Rightarrow> (Some e, s3)
                   | (None, doShow3, s3) \<Rightarrow> (None, reconcileVisibility actorKey doShow3 s3)))))"

fun updateActors ::
  "string \<Rightarrow> Tool \<Rightarrow> string list \<Rightarrow> SimulatedToolsPanel \<Rightarrow>
   error option \<times> SimulatedToolsPanel" where
  "updateActors k tool [] s = (None, s)"
| "updateActors k tool (actorKey # rest) s =
     (case updateActor k tool actorKey s of
        (Some e, s') \<Rightarrow> (Some e, s')
      | (None, s') \<Rightarrow> updateActors k tool rest s')"

text \<open>The body of the rendering loop for one tool.\<close>

definition refreshTool ::
  "string \<Rightarrow> Tool \<Rightarrow> SimulatedToolsPanel \<Rightarrow> error option \<times> SimulatedToolsPanel" where
  "refreshTool k tool s =
     (if \<not> isActive tool \<or>
         getLatestTransf_default (positionsClient s) (trackerKey tool) None = None
      then (None, s\<lparr>actors := hideActors (actorKeysForTool k tool) (actors s)\<rparr>)
      else updateActors k tool (actorKeysForTool k tool) s)"

fun refreshTools ::
  "(string \<times> Tool) list \<Rightarrow> SimulatedToolsPanel \<Rightarrow> error option \<times> SimulatedToolsPanel" where
  "refreshTools [] s = (None, s)"
| "refreshTools ((k, tool) # rest) s =
     (case refreshTool k tool s of
        (Some e, s') \<Rightarrow> (Some e, s')
      | (None, s') \<Rightarrow> refreshTools rest s')"

text \<open>
  \<open>_onLatestPositionsChanged\<close>: the one-shot restore, the mirror into the
  configuration, the guard on initialisation, and the rendering loop. The local flag
  \<open>doResetCamera\<close> is left out: the source only tests it to execute \<open>pass\<close>.
\<close>

definition onLatestPositionsChanged ::
  "(nat \<Rightarrow> real) \<Rightarrow> SimulatedToolsPanel \<Rightarrow> error option \<times> SimulatedToolsPanel" where
  "onLatestPositionsChanged clock s =
     (case
        (if \<not> hasRestoredPositions s then
           (case restorePositions clock 0 (config_poses (session s)) (positionsClient s) of
              (Some e, c) \<Rightarrow> (Some e, s\<lparr>positionsClient := c\<rparr>)
            | (None, c) \<Rightarrow> (None, s\<lparr>positionsClient := c, hasRestoredPositions := True\<rparr>))
         else (None, s))
      of
        (Some e, s1) \<Rightarrow> (Some e, s1)
      | (None, s1) \<Rightarrow>
          (let s2 = s1\<lparr>session := (session s1)\<lparr>config_poses :=
                        mirrorPoses (positionsClient s1) (tools (session s1))
                          (config_poses (session s1))\<rparr>\<rparr>
           in if \<not> hasInitialized s2 \<and> \<not> isInitializing s2 then (None, s2)
              else refreshTools (tools (session s2)) s2))"

text \<open>
  A number of refresh cycles, one per notification of the positions client; cycle \<open>n\<close>
  reads the clock \<open>clocks n\<close>. The first exception ends the run.
\<close>

fun refreshCycles ::
  "(nat \<Rightarrow> nat \<Rightarrow> real) \<Rightarrow> nat \<Rightarrow> SimulatedToolsPanel \<Rightarrow>
   error option \<times> SimulatedToolsPanel" where
  "refreshCycles clocks 0 s = (None, s)"
| "refreshCycles clocks (Suc n) s =
     (case onLatestPositionsChanged (clocks n) s of
        (Some e, s') \<Rightarrow> (Some e, s')
      | (None, s') \<Rightarrow> refreshCycles clocks n s')"

section \<open>Entity set changes: \<open>_onToolsChanged\<close>\<close>




section \<open>Clear-all and zero-all\<close>

fun clearAllPositions_loop ::
  "(nat \<Rightarrow> real) \<Rightarrow> nat \<Rightarrow> (string \<times> Tool) list \<Rightarrow> SimulatedToolPositionsClient \<Rightarrow>
   error option \<times> SimulatedToolPositionsClient" where
  "clearAllPositions_loop clock i [] c = (None, c)"
| "clearAllPositions_loop clock i ((k, tool) # rest) c =
     (case recordNewPosition_sync c (trackerKey tool)
             \<lparr>time = clock i, transf = None, relativeTo = None\<rparr> of
        Inl e \<Rightarrow> (Some e, c)
      | Inr c' \<Rightarrow> clearAllPositions_loop clock (Suc i) rest c')"

definition clearAllPositions ::
  "(nat \<Rightarrow> real) \<Rightarrow> SimulatedToolsPanel \<Rightarrow> error option \<times> SimulatedToolsPanel" where
  "clearAllPositions clock s =
     (case clearAllPositions_loop clock 0 (tools (session s)) (positionsClient s) of
        (r, c) \<Rightarrow> (r, s\<lparr>positionsClient := c\<rparr>))"

fun zeroAllPositions_loop ::
  "(nat \<Rightarrow> real) \<Rightarrow> nat \<Rightarrow> (string \<times> Tool) list \<Rightarrow> SimulatedToolPositionsClient \<Rightarrow>
   error option \<times> SimulatedToolPositionsClient" where
  "zeroAllPositions_loop clock i [] c = (None, c)"
| "zeroAllPositions_loop clock i ((k, tool) # rest) c =
     (case map_of (latestPositions c) (trackerKey tool) of
        Some pos \<Rightarrow>
          if relativeTo pos \<noteq> None then zeroAllPositions_loop clock (Suc i) rest c
          else
            (case recordNewPosition_sync c (trackerKey tool)
                    \<lparr>time = clock i, transf = Some eye4, relativeTo = None\<rparr> of
               Inl e \<Rightarrow> (Some e, c)
             | Inr c' \<Rightarrow> zeroAllPositions_loop clock (Suc i) rest c')
      | None \<Rightarrow>
          (case recordNewPosition_sync c (trackerKey tool)
                  \<lparr>time = clock i, transf = Some eye4, relativeTo = None\<rparr> of
             Inl e \<Rightarrow> (Some e, c)
           | Inr c' \<Rightarrow> zeroAllPositions_loop clock (Suc i) rest c'))"

definition zeroAllPositions ::
  "(nat \<Rightarrow> real) \<Rightarrow> SimulatedToolsPanel \<Rightarrow> error option \<times> SimulatedToolsPanel" where
  "zeroAllPositions clock s =
     (case zeroAllPositions_loop clock 0 (tools (session s)) (positionsClient s) of
        (r, c) \<Rightarrow> (r, s\<lparr>positionsClient := c\<rparr>))"

section \<open>Snapshots: export and import\<close>

text \<open>
  Modelled from the spec: \<open>asDict\<close> and \<open>fromDict\<close> belong to
  \<open>TimestampedToolPosition\<close>, which is not among the sources. The snapshot file format
  maps an entity key to \<open>{time, transform, relativeTo}\<close>, the transform a 16-number
  array or null, the \<open>relativeTo\<close> a string or null, and must round-trip. The array of
  numbers is represented by the matrix it lists; a missing \<open>relativeTo\<close> and a null one
  are both \<open>None\<close> (the export reads it with \<open>get('relativeTo', None)\<close>). The JSON text
  of a file is represented by the dict it encodes.
\<close>

record PositionDict =
  d_time :: real
  d_transf :: "mat4 option"
  d_relativeTo :: "string option"

definition asDict :: "TimestampedToolPosition \<Rightarrow> PositionDict" where
  "asDict tsPos = \<lparr>d_time = time tsPos, d_transf = transf tsPos, d_relativeTo = relativeTo tsPos\<rparr>"

definition fromDict :: "PositionDict \<Rightarrow> TimestampedToolPosition" where
  "fromDict d = \<lparr>time = d_time d, transf = d_transf d, relativeTo = d_relativeTo d\<rparr>"

text \<open>
  The filter of the export: the loop over \<open>list(positions.keys())\<close> that deletes every
  entry whose dict has a \<open>relativeTo\<close>.
\<close>

fun dropRelativePositions ::
  "string list \<Rightarrow> (string \<times> PositionDict) list \<Rightarrow> (string \<times> PositionDict) list" where
  "dropRelativePositions [] positions = positions"
| "dropRelativePositions (k # ks) positions =
     dropRelativePositions ks
       (case map_of positions k of
          None \<Rightarrow> positions
        | Some tsPosDict \<Rightarrow>
            if d_relativeTo tsPosDict \<noteq> None then AList.delete k positions else positions)"

text \<open>
  \<open>exportPositionsSnapshot\<close>: \<open>dialogAnswer\<close> is what the file dialog returns when no
  path is given (the empty string when the user cancels). The result is the file
  written, path and content, or \<open>None\<close> when the export is cancelled.
\<close>

definition exportPositionsSnapshot ::
  "string option \<Rightarrow> string \<Rightarrow> bool \<Rightarrow> SimulatedToolsPanel \<Rightarrow>
   (string \<times> (string \<times> PositionDict) list) option" where
  "exportPositionsSnapshot filepath dialogAnswer doIncludeToolsWithRelativePositions s =
     (let filepath' = (case filepath of None \<Rightarrow> dialogAnswer | Some f \<Rightarrow> f)
      in if length filepath' = 0 then None
         else
           (let positions =
                  map (\<lambda>(k, tsPos). (k, asDict tsPos)) (latestPositions (positionsClient s))
            in Some (filepath',
                 if \<not> doIncludeToolsWithRelativePositions
                 then dropRelativePositions (map fst positions) positions
                 else positions)))"

text \<open>
  The second loop of the import: each pose gets the time of the import and is recorded
  under its key with the asynchronous command.
\<close>

fun recordImportedPositions ::
  "(nat \<Rightarrow> real) \<Rightarrow> nat \<Rightarrow> (string \<times> TimestampedToolPosition) list \<Rightarrow>
   SimulatedToolPositionsClient \<Rightarrow> error option \<times> SimulatedToolPositionsClient" where
  "recordImportedPositions clock i [] c = (None, c)"
| "recordImportedPositions clock i ((k, tsPos) # rest) c =
     (case recordNewPosition_async c k (tsPos\<lparr>time := clock i\<rparr>) of
        Inl e \<Rightarrow> (Some e, c)
      | Inr c' \<Rightarrow> recordImportedPositions clock (Suc i) rest c')"

text \<open>
  \<open>importPositionsSnapshot\<close>: \<open>files\<close> gives the parsed content of a readable JSON file
  (\<open>None\<close> when \<open>open\<close> or \<open>json.load\<close> raises).
\<close>

definition importPositionsSnapshot ::
  "(nat \<Rightarrow> real) \<Rightarrow> (string \<Rightarrow> (string \<times> PositionDict) list option) \<Rightarrow> string option \<Rightarrow>
   string \<Rightarrow> (string \<times> PositionDict) list option \<Rightarrow> SimulatedToolsPanel \<Rightarrow>
   error option \<times> SimulatedToolsPanel" where
  "importPositionsSnapshot clock files filepath dialogAnswer positionsDict s =
     (case
        (case positionsDict of
           Some d \<Rightarrow> Inr (Some d)
         | None \<Rightarrow>
             (let filepath' = (case filepath of None \<Rightarrow> dialogAnswer | Some f \<Rightarrow> f)
              in if length filepath' = 0 then Inr None
                 else (case files filepath' of
                         None \<Rightarrow> Inl OSError
                       | Some d \<Rightarrow> Inr (Some d))))
      of
        Inl e \<Rightarrow> (Some e, s)
      | Inr None \<Rightarrow> (None, s)
      | Inr (Some d) \<Rightarrow>
          (case recordImportedPositions clock 0 (map (\<lambda>(k, v). (k, fromDict v)) d)
                  (positionsClient s) of
             (r, c) \<Rightarrow> (r, s\<lparr>positionsClient := c\<rparr>)))"

section \<open>Interactive manipulation: \<open>selectAndMoveTool\<close>\<close>

text \<open>
  \<open>[actorKey for actorKey, actor in self._actors.items() if actor is pickedActor][0]\<close>.
\<close>

definition pickedKeyOf :: "(string \<times> Actor) list \<Rightarrow> nat \<Rightarrow> error + string" where
  "pickedKeyOf acts picked =
     (case filter (\<lambda>(actorKey, actor). handle actor = picked) acts of
        [] \<Rightarrow> Inl IndexError
      | (actorKey, actor) # _ \<Rightarrow> Inr actorKey)"

text \<open>The owner of an actor key, by its suffix; \<open>session.tools[...]\<close> raises on a missing key.\<close>

definition pickedToolOf :: "Session \<Rightarrow> string \<Rightarrow> error + Tool" where
  "pickedToolOf sess pickedKey =
     (if endswith pickedKey ''_tracker'' then
        (case map_of (tools sess) (take (length pickedKey - length ''_tracker'') pickedKey) of
           None \<Rightarrow> Inl KeyError
         | Some tool \<Rightarrow> Inr tool)
      else if endswith pickedKey ''_tool'' then
        (case map_of (tools sess) (take (length pickedKey - length ''_tool'') pickedKey) of
           None \<Rightarrow> Inl KeyError
         | Some tool \<Rightarrow> Inr tool)
      else Inl NotImplementedError)"

text \<open>
  Modelled from the spec: \<open>interactivelyMoveActor\<close> is imported from
  \<open>NaviNIBS.util.pyvista.PlotInteraction\<close>, which is not among the sources. The
  renderer streams the intermediate world transforms of the drag to the callback; the
  awaited move ends when the drag ends, and raises \<open>CancelledError\<close> in the awaiting
  coroutine when the task is cancelled from outside. An exception of the callback ends
  the move with that exception. The callback reads \<open>clock i\<close> for the \<open>i\<close>-th transform.
\<close>

datatype DragEnd = DragFinished | DragCancelled

fun interactivelyMoveActor ::
  "(nat \<Rightarrow> real) \<Rightarrow> nat \<Rightarrow> string \<Rightarrow> Tool \<Rightarrow> mat4 list \<Rightarrow> DragEnd \<Rightarrow> SimulatedToolsPanel \<Rightarrow>
   error option \<times> SimulatedToolsPanel" where
  "interactivelyMoveActor clock i pickedKey pickedTool [] DragFinished s = (None, s)"
| "interactivelyMoveActor clock i pickedKey pickedTool [] DragCancelled s =
     (Some CancelledError, s)"
| "interactivelyMoveActor clock i pickedKey pickedTool (T # Ts) dragEnd s =
     (case onNewTransf (clock i) pickedKey pickedTool T s of
        (Some e, s') \<Rightarrow> (Some e, s')
      | (None, s') \<Rightarrow> interactivelyMoveActor clock (Suc i) pickedKey pickedTool Ts dragEnd s')"

text \<open>
  \<open>selectAndMoveTool\<close>: \<open>pickedActor\<close> is the argument (a handle or \<open>None\<close>),
  \<open>pickResult\<close> the actor that \<open>pickActor\<close> returns when the argument is \<open>None\<close>,
  \<open>transfs\<close> and \<open>dragEnd\<close> the course of the drag. The statement after the awaited
  move, \<open>self._currentlyMovingActors.remove(pickedKey)\<close>, runs only when the move
  returns.
\<close>

definition selectAndMoveTool ::
  "(nat \<Rightarrow> real) \<Rightarrow> nat option \<Rightarrow> nat \<Rightarrow> mat4 list \<Rightarrow> DragEnd \<Rightarrow> SimulatedToolsPanel \<Rightarrow>
   error option \<times> SimulatedToolsPanel" where
  "selectAndMoveTool clock pickedActor pickResult transfs dragEnd s =
     (let picked = (case pickedActor of None \<Rightarrow> pickResult | Some h \<Rightarrow> h)
      in case pickedKeyOf (actors s) picked of
           Inl e \<Rightarrow> (None, s)
         | Inr pickedKey \<Rightarrow>
             (case pickedToolOf (session s) pickedKey of
                Inl e \<Rightarrow> (Some e, s)
              | Inr pickedTool \<Rightarrow>
                  if pickedKey \<in> currentlyMovingActors s then (Some AssertionError, s)
                  else
                    (case interactivelyMoveActor clock 0 pickedKey pickedTool transfs dragEnd
                            (s\<lparr>currentlyMovingActors :=
                                 insert pickedKey (currentlyMovingActors s)\<rparr>) of
                       (Some e, s') \<Rightarrow> (Some e, s')
                     | (None, s') \<Rightarrow>
                         if pickedKey \<in> currentlyMovingActors s'
                         then (None, s'\<lparr>currentlyMovingActors :=
                                          currentlyMovingActors s' - {pickedKey}\<rparr>)
                         else (Some KeyError, s'))))"

section \<open>Predicates of the statements\<close>

text \<open>An actor with its visibility turned off (\<open>VisibilityOff()\<close>), all else as it was.\<close>

definition hiddenActor :: "Actor \<Rightarrow> Actor" where
  "hiddenActor a = a\<lparr>visibility := False\<rparr>"

text \<open>
  The test of the rendering loop for "no valid position available": the tool is inactive,
  or \<open>getLatestTransf(tool.trackerKey, None)\<close> is \<open>None\<close>.
\<close>

definition noValidPosition :: "SimulatedToolPositionsClient \<Rightarrow> Tool \<Rightarrow> bool" where
  "noValidPosition c tool =
     (\<not> isActive tool \<or> getLatestTransf_default c (trackerKey tool) None = None)"

text \<open>
  The stored pose of a key: expressed relative to another entity; the identity in the
  world frame; without a transform.
\<close>

definition hasRelativePose :: "SimulatedToolPositionsClient \<Rightarrow> string \<Rightarrow> bool" where
  "hasRelativePose c k =
     (case map_of (latestPositions c) k of None \<Rightarrow> False | Some pos \<Rightarrow> relativeTo pos \<noteq> None)"

definition hasIdentityPose :: "SimulatedToolPositionsClient \<Rightarrow> string \<Rightarrow> bool" where
  "hasIdentityPose c k =
     (case map_of (latestPositions c) k of
        None \<Rightarrow> False
      | Some pos \<Rightarrow> transf pos = Some eye4 \<and> relativeTo pos = None)"

definition cleared :: "SimulatedToolPositionsClient \<Rightarrow> string \<Rightarrow> bool" where
  "cleared c k = (case map_of (latestPositions c) k of None \<Rightarrow> False | Some p \<Rightarrow> transf p = None)"

text \<open>
  Two panel states that agree on everything but the plotter and the entries of \<open>_actors\<close>
  for the keys in \<open>A\<close>.
\<close>

definition sameExceptActors :: "string set \<Rightarrow> SimulatedToolsPanel \<Rightarrow> SimulatedToolsPanel \<Rightarrow> bool" where
  "sameExceptActors A s s' =
     (currentlyMovingActors s' = currentlyMovingActors s \<and>
      positionsClient s' = positionsClient s \<and>
      session s' = session s \<and>
      hasRestoredPositions s' = hasRestoredPositions s \<and>
      hasInitialized s' = hasInitialized s \<and>
      isInitializing s' = isInitializing s \<and>
      map_of (actors s') |` (- A) = map_of (actors s) |` (- A))"




section \<open>Example states\<close>

text \<open>Concrete tools, clients and panels, at which the theorems below are instantiated.\<close>

definition translation :: "real \<Rightarrow> real \<Rightarrow> real \<Rightarrow> mat4" where
  "translation x y z = Mat4 (Vec4 1 0 0 x) (Vec4 0 1 0 y) (Vec4 0 0 1 z) (Vec4 0 0 0 1)"

definition scaling :: "real \<Rightarrow> mat4" where
  "scaling k = Mat4 (Vec4 k 0 0 0) (Vec4 0 k 0 0) (Vec4 0 0 k 0) (Vec4 0 0 0 1)"

definition ex_tool :: "string \<Rightarrow> Tool" where
  "ex_tool k =
     \<lparr>key = k, trackerKey = k, isActive = True, isSubjectTracker = False,
      doRenderTracker = True, doRenderTool = True,
      trackerStlFilepath = Some ''tracker.stl'', toolStlFilepath = Some ''tool.stl'',
      toolToTrackerTransf = Some (translation 1 2 3), toolStlToToolTransf = scaling 2,
      trackerStlToTrackerTransf = Some (translation 0 0 1),
      trackerSurf = 0, toolSurf = 1, trackerColor = None, toolColor = None,
      trackerOpacity = None, toolOpacity = None\<rparr>"

definition ex_client :: "(string \<times> TimestampedToolPosition) list \<Rightarrow> SimulatedToolPositionsClient" where
  "ex_client poses = \<lparr>latestPositions = poses, serverAcks = (\<lambda>k p. True)\<rparr>"

definition ex_actor :: "nat \<Rightarrow> string \<Rightarrow> bool \<Rightarrow> Actor" where
  "ex_actor h name vis =
     \<lparr>handle = h, visibility = vis, userTransform = None, actorName = name, actorMesh = 0,
      actorColor = Some ''#444444'', actorOpacity = 1\<rparr>"

definition ex_panel ::
  "(string \<times> Tool) list \<Rightarrow> (string \<times> TimestampedToolPosition) list \<Rightarrow> (string \<times> Actor) list \<Rightarrow>
   string set \<Rightarrow> SimulatedToolsPanel" where
  "ex_panel ts poses acts moving =
     \<lparr>actors = acts, currentlyMovingActors = moving, positionsClient = ex_client poses,
      hasRestoredPositions = True, hasInitialized = True, isInitializing = False,
      plotter = \<lparr>sceneActors = map (handle \<circ> snd) acts, nextHandle = 100, renderCount = 0\<rparr>,
      session = \<lparr>tools = ts, config_poses = [], trackerToMRITransf = None, skinSurf = None\<rparr>\<rparr>"

definition ex_pose :: "mat4 \<Rightarrow> TimestampedToolPosition" where
  "ex_pose T = \<lparr>time = 1, transf = Some T, relativeTo = None\<rparr>"

definition ex_relative_pose :: "mat4 \<Rightarrow> string \<Rightarrow> TimestampedToolPosition" where
  "ex_relative_pose T k = \<lparr>time = 1, transf = Some T, relativeTo = Some k\<rparr>"

definition ex_offset_inverse :: mat4 where
  "ex_offset_inverse =
     Mat4 (Vec4 (1 / 2) 0 0 (- 1 / 2)) (Vec4 0 (1 / 2) 0 (- 1))
          (Vec4 0 0 (1 / 2) (- 3 / 2)) (Vec4 0 0 0 1)"

definition ex_drag_panel :: SimulatedToolsPanel where
  "ex_drag_panel =
     ex_panel [(''T1'', ex_tool ''T1'')] [] [(''T1_tool'', ex_actor 7 ''T1_tool'' True)] {}"

definition ex_moving_panel :: SimulatedToolsPanel where
  "ex_moving_panel =
     ex_panel [(''T1'', ex_tool ''T1'')]
       [(''T1'', ex_pose (translation 1 1 1))]
       [(''T1_tool'', ex_actor 7 ''T1_tool'' True)] {''T1_tool''}"

definition ex_inactive_panel :: SimulatedToolsPanel where
  "ex_inactive_panel =
     ex_panel [(''T1'', (ex_tool ''T1'')\<lparr>isActive := False\<rparr>)]
       [(''T1'', ex_pose (translation 1 1 1))]
       [(''T1_tool'', ex_actor 7 ''T1_tool'' True)] {''T1_tool''}"

definition ex_two_tools_panel :: SimulatedToolsPanel where
  "ex_two_tools_panel =
     ex_panel [(''T1'', ex_tool ''T1''), (''T2'', ex_tool ''T2'')]
       [(''T1'', ex_pose (translation 1 2 3)),
        (''T2'', ex_relative_pose (translation 0 0 1) ''T1'')] [] {}"

definition ex_three_tools_panel :: SimulatedToolsPanel where
  "ex_three_tools_panel =
     ex_panel [(''T1'', ex_tool ''T1''), (''T2'', ex_tool ''T2''), (''T3'', ex_tool ''T3'')]
       [(''T1'', ex_pose (translation 1 2 3))] [] {}"

definition ex_restore_panel :: SimulatedToolsPanel where
  "ex_restore_panel =
     (ex_panel [(''T1'', ex_tool ''T1''), (''T2'', ex_tool ''T2'')]
        [(''T2'', ex_pose (translation 0 0 1))] [] {})
     \<lparr>hasRestoredPositions := False,
      session :=
        \<lparr>tools = [(''T1'', ex_tool ''T1''), (''T2'', ex_tool ''T2'')],
         config_poses =
           [(''T1'', \<lparr>pose_key = ''T1'', pose_transf = Some (translation 1 2 3),
                      pose_relativeTo = None\<rparr>),
            (''T2'', \<lparr>pose_key = ''T2'', pose_transf = Some (translation 9 9 9),
                      pose_relativeTo = None\<rparr>)],
         trackerToMRITransf = None, skinSurf = None\<rparr>\<rparr>"

text \<open>
  A panel before its restore whose server acknowledges a record command for \<open>T2\<close> only
  from time 5 on (before that the command times out), with an empty positions client.
\<close>

definition ex_timeout_panel :: SimulatedToolsPanel where
  "ex_timeout_panel =
     ex_restore_panel
     \<lparr>positionsClient :=
        \<lparr>latestPositions = [],
         serverAcks = (\<lambda>k position. k = ''T1'' \<or> 5 \<le> time position)\<rparr>\<rparr>"

definition ex_tools_changed_panel :: SimulatedToolsPanel where
  "ex_tools_changed_panel =
     ex_panel [(''T1'', ex_tool ''T1'')]
       [(''T1'', ex_pose (translation 1 1 1))]
       [(''T1_tracker'', ex_actor 1 ''T1_tracker'' True),
        (''T2_tracker'', ex_actor 2 ''T2_tracker'' True)] {}"

definition ex_snapshot :: "(string \<times> PositionDict) list" where
  "ex_snapshot =
     [(''T1'', asDict (ex_pose (translation 1 2 3))),
      (''T2'', asDict (ex_relative_pose (translation 0 0 1) ''T1''))]"

definition ex_files :: "string \<Rightarrow> (string \<times> PositionDict) list option" where
  "ex_files path = (if path = ''snapshot.json'' then Some ex_snapshot else None)"

section \<open>Unfolding the model at concrete states\<close>

lemmas ex_defs =
  ex_pose_def ex_relative_pose_def ex_inactive_panel_def ex_moving_panel_def
  ex_two_tools_panel_def ex_three_tools_panel_def ex_restore_panel_def
  ex_tools_changed_panel_def ex_drag_panel_def ex_panel_def ex_tool_def ex_client_def
  ex_actor_def translation_def scaling_def

lemmas refresh_defs =
  onLatestPositionsChanged_def refreshTool_def updateActor_def renderToolOrTracker_def
  renderSubject_def reconcileVisibility_def actorKeysForTool_def addMesh_def render_def
  setActorUserTransform_def getLatestTransf_def getLatestTransf_default_def
  recordNewPosition_sync_def concatenateTransforms_def eye4_def transpose4_def Let_def

section \<open>Properties of the transform algebra\<close>

lemma mat4_cases16:
  obtains a00 a01 a02 a03 a10 a11 a12 a13 a20 a21 a22 a23 a30 a31 a32 a33 where
    "A = Mat4 (Vec4 a00 a01 a02 a03) (Vec4 a10 a11 a12 a13)
              (Vec4 a20 a21 a22 a23) (Vec4 a30 a31 a32 a33)"
proof (cases A)
  case (Mat4 r0 r1 r2 r3)
  then show ?thesis
    by (cases r0; cases r1; cases r2; cases r3) (auto intro: that)
qed

lemma matmul_assoc: "matmul (matmul A B) C = matmul A (matmul B C)"
  by (cases A rule: mat4_cases16; cases B rule: mat4_cases16; cases C rule: mat4_cases16)
     (simp add: Let_def transpose4_def algebra_simps)

lemma matmul_eye_left: "matmul eye4 A = A"
  by (cases A rule: mat4_cases16) (simp add: eye4_def transpose4_def)

lemma matmul_eye_right: "matmul A eye4 = A"
  by (cases A rule: mat4_cases16) (simp add: eye4_def transpose4_def)

lemma adjugate_left: "matmul (adjugate4 A) A = mscale (det4 A) eye4"
  by (cases A rule: mat4_cases16)
     (simp add: Let_def eye4_def transpose4_def det4_def adjugate4_def algebra_simps)

lemma adjugate_right: "matmul A (adjugate4 A) = mscale (det4 A) eye4"
  by (cases A rule: mat4_cases16)
     (simp add: Let_def eye4_def transpose4_def det4_def adjugate4_def algebra_simps)

lemma mscale_matmul_left: "matmul (mscale k A) B = mscale k (matmul A B)"
  by (cases A rule: mat4_cases16; cases B rule: mat4_cases16)
     (simp add: Let_def transpose4_def algebra_simps)

lemma mscale_matmul_right: "matmul A (mscale k B) = mscale k (matmul A B)"
  by (cases A rule: mat4_cases16; cases B rule: mat4_cases16)
     (simp add: Let_def transpose4_def algebra_simps)

lemma mscale_mscale: "mscale k (mscale l A) = mscale (k * l) A"
  by (cases A rule: mat4_cases16) (simp add: algebra_simps)

lemma mscale_one: "mscale 1 A = A"
  by (cases A rule: mat4_cases16) simp

lemma invertTransform_left:
  assumes "invertTransform A = Inr Ainv"
  shows "matmul Ainv A = eye4"
proof -
  from assms have d: "det4 A \<noteq> 0" and inv: "Ainv = mscale (1 / det4 A) (adjugate4 A)"
    by (auto simp: invertTransform_def split: if_splits)
  have "matmul Ainv A = mscale (1 / det4 A) (mscale (det4 A) eye4)"
    by (simp add: inv mscale_matmul_left adjugate_left)
  also have "\<dots> = eye4"
    using d by (simp add: mscale_mscale mscale_one)
  finally show ?thesis .
qed

lemma invertTransform_right:
  assumes "invertTransform A = Inr Ainv"
  shows "matmul A Ainv = eye4"
proof -
  from assms have d: "det4 A \<noteq> 0" and inv: "Ainv = mscale (1 / det4 A) (adjugate4 A)"
    by (auto simp: invertTransform_def split: if_splits)
  have "matmul A Ainv = mscale (1 / det4 A) (mscale (det4 A) eye4)"
    by (simp add: inv mscale_matmul_right adjugate_right)
  also have "\<dots> = eye4"
    using d by (simp add: mscale_mscale mscale_one)
  finally show ?thesis .
qed

lemma invertTransform_succeeds_iff: "(\<exists>Ainv. invertTransform A = Inr Ainv) \<longleftrightarrow> det4 A \<noteq> 0"
  by (simp add: invertTransform_def)

lemma concatenateTransforms_pair: "concatenateTransforms [A, B] = matmul B A"
  by (simp add: concatenateTransforms_def matmul_eye_right)

lemma concatenate_offset_inverse:
  assumes "invertTransform Off = Inr Oinv"
  shows "concatenateTransforms [Off, concatenateTransforms [Oinv, W]] = W"
proof -
  have "concatenateTransforms [Off, concatenateTransforms [Oinv, W]] = matmul (matmul W Oinv) Off"
    by (simp add: concatenateTransforms_pair)
  also have "\<dots> = matmul W (matmul Oinv Off)"
    by (rule matmul_assoc)
  also have "\<dots> = W"
    by (simp add: invertTransform_left [OF assms] matmul_eye_right)
  finally show ?thesis .
qed

section \<open>The drag callback commits the world transform with the offset backed out\<close>

text \<open>
  Claim C1. For a drag of a tool-aspect actor (an actor key ending in \<open>_tool\<close>), an
  intermediate world transform \<open>W\<close> is committed to the positions client, under the
  tool's tracker key, as the pose \<open>concatenateTransforms [invert Off, W]\<close>, where \<open>Off\<close>
  is the composed tool offset \<open>concatenateTransforms [toolStlToToolTransf,
  toolToTrackerTransf]\<close>; and composing the offset with the committed pose gives back
  \<open>W\<close>, for every offset that \<open>invertTransform\<close> can invert (those of non-zero
  determinant, see \<open>invertTransform_succeeds_iff\<close>). The record command is assumed to
  be acknowledged by the server.
\<close>

theorem C1_tool_drag_commit:
  assumes suffix: "endswith pickedKey ''_tool''"
    and offset: "toolToTrackerTransf pickedTool = Some toolToTracker"
      "Off = concatenateTransforms [toolStlToToolTransf pickedTool, toolToTracker]"
    and invertible: "invertTransform Off = Inr Oinv"
    and commit: "committed = \<lparr>time = now, transf = Some (concatenateTransforms [Oinv, W]), relativeTo = None\<rparr>"
    and ack: "serverAcks (positionsClient s) (trackerKey pickedTool) committed"
  shows "onNewTransf now pickedKey pickedTool W s =
           (None, s\<lparr>positionsClient := (positionsClient s)\<lparr>latestPositions :=
               AList.update (trackerKey pickedTool) committed
                 (latestPositions (positionsClient s))\<rparr>\<rparr>)
         \<and> map_of (latestPositions (positionsClient (snd (onNewTransf now pickedKey pickedTool W s))))
             (trackerKey pickedTool) = Some committed
         \<and> concatenateTransforms [Off, concatenateTransforms [Oinv, W]] = W"
proof -
  have run: "onNewTransf now pickedKey pickedTool W s =
           (None, s\<lparr>positionsClient := (positionsClient s)\<lparr>latestPositions :=
               AList.update (trackerKey pickedTool) committed
                 (latestPositions (positionsClient s))\<rparr>\<rparr>)"
    using suffix offset invertible ack
    by (simp add: onNewTransf_def recordNewPosition_sync_def commit)
  have "map_of (latestPositions (positionsClient (snd (onNewTransf now pickedKey pickedTool W s))))
             (trackerKey pickedTool) = Some committed"
    by (simp add: run update_conv')
  moreover have "concatenateTransforms [Off, concatenateTransforms [Oinv, W]] = W"
    by (rule concatenate_offset_inverse [OF invertible])
  ultimately show ?thesis using run by simp
qed

theorem C1_tool_drag_commit_witness:
  "endswith ''T1_tool'' ''_tool''
   \<and> invertTransform (concatenateTransforms [scaling 2, translation 1 2 3]) = Inr ex_offset_inverse
   \<and> map_of (latestPositions (positionsClient (snd
         (onNewTransf 5 ''T1_tool'' (ex_tool ''T1'') (translation 4 5 6)
            (ex_panel [(''T1'', ex_tool ''T1'')] [] [] {})))))
        ''T1''
       = Some \<lparr>time = 5,
               transf = Some (concatenateTransforms [ex_offset_inverse, translation 4 5 6]),
               relativeTo = None\<rparr>
   \<and> concatenateTransforms
        [concatenateTransforms [scaling 2, translation 1 2 3],
         concatenateTransforms [ex_offset_inverse, translation 4 5 6]]
       = translation 4 5 6"
proof -
  have h1: "endswith ''T1_tool'' ''_tool''"
    by (simp add: endswith_def)
  have h2: "toolToTrackerTransf (ex_tool ''T1'') = Some (translation 1 2 3)"
    by (simp add: ex_tool_def)
  have h3: "concatenateTransforms [scaling 2, translation 1 2 3] =
            concatenateTransforms [toolStlToToolTransf (ex_tool ''T1''), translation 1 2 3]"
    by (simp add: ex_tool_def)
  have h4: "invertTransform (concatenateTransforms [scaling 2, translation 1 2 3]) =
            Inr ex_offset_inverse"
    by (simp add: invertTransform_def concatenateTransforms_def scaling_def translation_def
        eye4_def transpose4_def det4_def adjugate4_def Let_def ex_offset_inverse_def)
  have h5: "serverAcks (positionsClient (ex_panel [(''T1'', ex_tool ''T1'')] [] [] {}))
              (trackerKey (ex_tool ''T1''))
              \<lparr>time = 5,
               transf = Some (concatenateTransforms [ex_offset_inverse, translation 4 5 6]),
               relativeTo = None\<rparr>"
    by (simp add: ex_panel_def ex_client_def)
  have k: "trackerKey (ex_tool ''T1'') = ''T1''"
    by (simp add: ex_tool_def)
  show ?thesis
    using C1_tool_drag_commit [OF h1 h2 h3 h4 refl h5] h1 h4 by (simp add: k update_conv')
qed

section \<open>The record command of the positions client\<close>

lemma recordNewPosition_sync_Inr:
  "recordNewPosition_sync c k p = Inr c' \<Longrightarrow>
     latestPositions c' = AList.update k p (latestPositions c) \<and> serverAcks c' = serverAcks c"
  by (auto simp: recordNewPosition_sync_def split: if_splits)

lemma recordNewPosition_sync_acked:
  "serverAcks c k p \<Longrightarrow>
     recordNewPosition_sync c k p = Inr (c\<lparr>latestPositions := AList.update k p (latestPositions c)\<rparr>)"
  by (simp add: recordNewPosition_sync_def)

section \<open>Clear-all\<close>

lemma clearAll_loop_keeps_cleared:
  "clearAllPositions_loop clock i ts c = (None, c') \<Longrightarrow> cleared c K \<Longrightarrow> cleared c' K"
proof (induction ts arbitrary: c i)
  case Nil
  then show ?case by simp
next
  case (Cons kt ts)
  obtain k tool where kt: "kt = (k, tool)" by (cases kt)
  from Cons.prems(1) obtain c1 where
    rec: "recordNewPosition_sync c (trackerKey tool) \<lparr>time = clock i, transf = None, relativeTo = None\<rparr> = Inr c1"
    and rest: "clearAllPositions_loop clock (Suc i) ts c1 = (None, c')"
    by (auto simp: kt split: sum.splits)
  have "cleared c1 K"
    using recordNewPosition_sync_Inr [OF rec] Cons.prems(2)
    by (auto simp: cleared_def update_conv' split: option.splits)
  then show ?case by (rule Cons.IH [OF rest])
qed

lemma clearAll_loop_clears:
  "clearAllPositions_loop clock i ts c = (None, c') \<Longrightarrow> (k, tool) \<in> set ts \<Longrightarrow>
     cleared c' (trackerKey tool)"
proof (induction ts arbitrary: c i)
  case Nil
  then show ?case by simp
next
  case (Cons kt ts)
  obtain k0 tool0 where kt: "kt = (k0, tool0)" by (cases kt)
  from Cons.prems(1) obtain c1 where
    rec: "recordNewPosition_sync c (trackerKey tool0) \<lparr>time = clock i, transf = None, relativeTo = None\<rparr> = Inr c1"
    and rest: "clearAllPositions_loop clock (Suc i) ts c1 = (None, c')"
    by (auto simp: kt split: sum.splits)
  show ?case
  proof (cases "(k, tool) \<in> set ts")
    case True
    then show ?thesis by (rule Cons.IH [OF rest])
  next
    case False
    with Cons.prems(2) have "tool = tool0" by (simp add: kt)
    then have "cleared c1 (trackerKey tool)"
      using recordNewPosition_sync_Inr [OF rec] by (simp add: cleared_def update_conv')
    then show ?thesis by (rule clearAll_loop_keeps_cleared [OF rest])
  qed
qed

lemma clearAll_loop_acked:
  "\<forall>k p. serverAcks c k p \<Longrightarrow> fst (clearAllPositions_loop clock i ts c) = None"
proof (induction ts arbitrary: c i)
  case Nil
  then show ?case by simp
next
  case (Cons kt ts)
  obtain k tool where kt: "kt = (k, tool)" by (cases kt)
  show ?case
    using Cons.prems by (simp add: kt recordNewPosition_sync_acked Cons.IH)
qed

text \<open>
  Claim C9. \<open>clearAllPositions\<close> records, with the synchronous command, a pose with no
  transform under the tracker key of every tool of the session: when it returns without
  an exception (it does whenever the server acknowledges the commands, see
  \<open>clearAll_loop_acked\<close>), \<open>getLatestTransf\<close> finds, for every tool, a pose under its
  tracker key, and that pose has no transform.
\<close>

theorem C9_clear_all:
  assumes "fst (clearAllPositions clock s) = None"
    and "(k, tool) \<in> set (tools (session s))"
  shows "getLatestTransf (positionsClient (snd (clearAllPositions clock s))) (trackerKey tool) = Inr None"
proof -
  obtain r c where loop: "clearAllPositions_loop clock 0 (tools (session s)) (positionsClient s) = (r, c)"
    by (cases "clearAllPositions_loop clock 0 (tools (session s)) (positionsClient s)")
  with assms(1) have "r = None" by (simp add: clearAllPositions_def)
  with loop have "cleared c (trackerKey tool)"
    using clearAll_loop_clears assms(2) by blast
  then show ?thesis
    using loop by (simp add: clearAllPositions_def cleared_def getLatestTransf_def split: option.splits)
qed

text \<open>The theorem at a concrete state.\<close>

theorem C9_clear_all_witness:
  "fst (clearAllPositions (\<lambda>i. 2) ex_three_tools_panel) = None
   \<and> getLatestTransf (positionsClient (snd (clearAllPositions (\<lambda>i. 2) ex_three_tools_panel))) ''T1''
       = Inr None
   \<and> getLatestTransf (positionsClient (snd (clearAllPositions (\<lambda>i. 2) ex_three_tools_panel))) ''T2''
       = Inr None
   \<and> getLatestTransf (positionsClient (snd (clearAllPositions (\<lambda>i. 2) ex_three_tools_panel))) ''T3''
       = Inr None"
proof -
  have f: "fst (clearAllPositions (\<lambda>i. 2) ex_three_tools_panel) = None"
    by (simp add: clearAllPositions_def recordNewPosition_sync_def ex_defs)
  have t1: "(''T1'', ex_tool ''T1'') \<in> set (tools (session ex_three_tools_panel))"
    and t2: "(''T2'', ex_tool ''T2'') \<in> set (tools (session ex_three_tools_panel))"
    and t3: "(''T3'', ex_tool ''T3'') \<in> set (tools (session ex_three_tools_panel))"
    by (simp_all add: ex_three_tools_panel_def ex_panel_def)
  have k: "trackerKey (ex_tool k) = k" for k
    by (simp add: ex_tool_def)
  from C9_clear_all [OF f t1] C9_clear_all [OF f t2] C9_clear_all [OF f t3] f
  show ?thesis by (simp add: k)
qed

section \<open>Zero-all\<close>

lemma zeroAll_loop_step:
  assumes "zeroAllPositions_loop clock i ((k, tool) # ts) c = (None, c')"
  obtains (skip) "hasRelativePose c (trackerKey tool)"
      "zeroAllPositions_loop clock (Suc i) ts c = (None, c')"
    | (commit) c1 where "\<not> hasRelativePose c (trackerKey tool)"
      "latestPositions c1 = AList.update (trackerKey tool)
          \<lparr>time = clock i, transf = Some eye4, relativeTo = None\<rparr> (latestPositions c)"
      "zeroAllPositions_loop clock (Suc i) ts c1 = (None, c')"
proof (cases "hasRelativePose c (trackerKey tool)")
  case True
  with assms have "zeroAllPositions_loop clock (Suc i) ts c = (None, c')"
    by (auto simp: hasRelativePose_def split: option.splits)
  with True show ?thesis by (rule skip)
next
  case False
  with assms obtain c1 where
    rec: "recordNewPosition_sync c (trackerKey tool)
            \<lparr>time = clock i, transf = Some eye4, relativeTo = None\<rparr> = Inr c1"
    and rest: "zeroAllPositions_loop clock (Suc i) ts c1 = (None, c')"
    by (auto simp: hasRelativePose_def split: option.splits sum.splits if_splits)
  from False recordNewPosition_sync_Inr [OF rec] rest show ?thesis
    by (auto intro: commit)
qed

lemma zeroAll_loop_keeps_relative:
  "zeroAllPositions_loop clock i ts c = (None, c') \<Longrightarrow> hasRelativePose c K \<Longrightarrow>
     map_of (latestPositions c') K = map_of (latestPositions c) K"
proof (induction ts arbitrary: c i)
  case Nil
  then show ?case by simp
next
  case (Cons kt ts)
  obtain k tool where kt: "kt = (k, tool)" by (cases kt)
  from Cons.prems(1) [unfolded kt] show ?case
  proof (cases rule: zeroAll_loop_step)
    case skip
    then show ?thesis using Cons.IH Cons.prems(2) by blast
  next
    case (commit c1)
    from commit(1) Cons.prems(2) have ne: "trackerKey tool \<noteq> K" by auto
    then have same: "map_of (latestPositions c1) K = map_of (latestPositions c) K"
      by (simp add: commit(2) update_conv')
    then have "hasRelativePose c1 K"
      using Cons.prems(2) by (simp add: hasRelativePose_def)
    from Cons.IH [OF commit(3) this] same show ?thesis by simp
  qed
qed

lemma zeroAll_loop_keeps_identity:
  "zeroAllPositions_loop clock i ts c = (None, c') \<Longrightarrow> hasIdentityPose c K \<Longrightarrow>
     hasIdentityPose c' K"
proof (induction ts arbitrary: c i)
  case Nil
  then show ?case by simp
next
  case (Cons kt ts)
  obtain k tool where kt: "kt = (k, tool)" by (cases kt)
  from Cons.prems(1) [unfolded kt] show ?case
  proof (cases rule: zeroAll_loop_step)
    case skip
    then show ?thesis using Cons.IH Cons.prems(2) by blast
  next
    case (commit c1)
    have "hasIdentityPose c1 K"
      using Cons.prems(2) by (simp add: hasIdentityPose_def commit(2) update_conv')
    from Cons.IH [OF commit(3) this] show ?thesis .
  qed
qed

lemma zeroAll_loop_zeroes:
  "zeroAllPositions_loop clock i ts c = (None, c') \<Longrightarrow> (k, tool) \<in> set ts \<Longrightarrow>
     \<not> hasRelativePose c (trackerKey tool) \<Longrightarrow> hasIdentityPose c' (trackerKey tool)"
proof (induction ts arbitrary: c i)
  case Nil
  then show ?case by simp
next
  case (Cons kt ts)
  obtain k0 tool0 where kt: "kt = (k0, tool0)" by (cases kt)
  from Cons.prems(1) [unfolded kt] show ?case
  proof (cases rule: zeroAll_loop_step)
    case skip
    with Cons.prems(2,3) have "(k, tool) \<in> set ts" by (auto simp: kt)
    from Cons.IH [OF skip(2) this Cons.prems(3)] show ?thesis .
  next
    case (commit c1)
    show ?thesis
    proof (cases "trackerKey tool = trackerKey tool0")
      case True
      then have "hasIdentityPose c1 (trackerKey tool)"
        by (simp add: hasIdentityPose_def commit(2) update_conv')
      then show ?thesis by (rule zeroAll_loop_keeps_identity [OF commit(3)])
    next
      case False
      with Cons.prems(2) have mem: "(k, tool) \<in> set ts" by (auto simp: kt)
      from False Cons.prems(3) have "\<not> hasRelativePose c1 (trackerKey tool)"
        by (simp add: hasRelativePose_def commit(2) update_conv')
      from Cons.IH [OF commit(3) mem this] show ?thesis .
    qed
  qed
qed

lemma zeroAll_loop_acked:
  "\<forall>k p. serverAcks c k p \<Longrightarrow> fst (zeroAllPositions_loop clock i ts c) = None"
proof (induction ts arbitrary: c i)
  case Nil
  then show ?case by simp
next
  case (Cons kt ts)
  obtain k tool where kt: "kt = (k, tool)" by (cases kt)
  show ?case
    using Cons.prems
    by (simp add: kt recordNewPosition_sync_acked Cons.IH split: option.splits)
qed

text \<open>
  Claim C3. \<open>zeroAllPositions\<close>, when it returns without an exception (it does whenever
  the server acknowledges the commands, see \<open>zeroAll_loop_acked\<close>): for every tool of the
  session whose stored pose has a \<open>relativeTo\<close>, the stored pose is left as it was; for
  every other tool (a stored pose without \<open>relativeTo\<close>, or no stored pose at all) the
  stored pose becomes the identity in the world frame. The loop does not read
  \<open>isActive\<close>, so this holds for the active tools and for the inactive ones alike.
\<close>

theorem C3_zero_all:
  assumes "fst (zeroAllPositions clock s) = None"
    and "(k, tool) \<in> set (tools (session s))"
  shows "if hasRelativePose (positionsClient s) (trackerKey tool)
         then map_of (latestPositions (positionsClient (snd (zeroAllPositions clock s))))
                (trackerKey tool)
              = map_of (latestPositions (positionsClient s)) (trackerKey tool)
         else hasIdentityPose (positionsClient (snd (zeroAllPositions clock s))) (trackerKey tool)"
proof -
  obtain r c where
    loop: "zeroAllPositions_loop clock 0 (tools (session s)) (positionsClient s) = (r, c)"
    by (cases "zeroAllPositions_loop clock 0 (tools (session s)) (positionsClient s)")
  with assms(1) have r: "r = None" by (simp add: zeroAllPositions_def)
  have after: "positionsClient (snd (zeroAllPositions clock s)) = c"
    using loop by (simp add: zeroAllPositions_def)
  show ?thesis
  proof (cases "hasRelativePose (positionsClient s) (trackerKey tool)")
    case True
    with zeroAll_loop_keeps_relative [OF loop [unfolded r] True] show ?thesis
      by (simp add: after)
  next
    case False
    with zeroAll_loop_zeroes [OF loop [unfolded r] assms(2) False] show ?thesis
      by (simp add: after)
  qed
qed

text \<open>The theorem at a concrete state.\<close>

theorem C3_zero_all_witness:
  "fst (zeroAllPositions (\<lambda>i. 2) ex_two_tools_panel) = None
   \<and> hasRelativePose (positionsClient ex_two_tools_panel) ''T2''
   \<and> map_of (latestPositions (positionsClient (snd (zeroAllPositions (\<lambda>i. 2) ex_two_tools_panel))))
        ''T2''
       = Some (ex_relative_pose (translation 0 0 1) ''T1'')
   \<and> \<not> hasRelativePose (positionsClient ex_two_tools_panel) ''T1''
   \<and> hasIdentityPose (positionsClient (snd (zeroAllPositions (\<lambda>i. 2) ex_two_tools_panel))) ''T1''"
proof -
  have f: "fst (zeroAllPositions (\<lambda>i. 2) ex_two_tools_panel) = None"
    by (simp add: zeroAllPositions_def recordNewPosition_sync_def ex_defs)
  have t1: "(''T1'', ex_tool ''T1'') \<in> set (tools (session ex_two_tools_panel))"
    and t2: "(''T2'', ex_tool ''T2'') \<in> set (tools (session ex_two_tools_panel))"
    by (simp_all add: ex_two_tools_panel_def ex_panel_def)
  have k: "trackerKey (ex_tool k) = k" for k
    by (simp add: ex_tool_def)
  have r2: "hasRelativePose (positionsClient ex_two_tools_panel) ''T2''"
    by (simp add: hasRelativePose_def ex_defs)
  have r1: "\<not> hasRelativePose (positionsClient ex_two_tools_panel) ''T1''"
    by (simp add: hasRelativePose_def ex_defs)
  have before: "map_of (latestPositions (positionsClient ex_two_tools_panel)) ''T2''
                  = Some (ex_relative_pose (translation 0 0 1) ''T1'')"
    by (simp add: ex_two_tools_panel_def ex_panel_def ex_client_def)
  from C3_zero_all [OF f t1] C3_zero_all [OF f t2] f r1 r2 before
  show ?thesis by (simp add: k)
qed

section \<open>Export with the default filter\<close>

lemma map_of_dropRelativePositions:
  "map_of (dropRelativePositions ks positions) k =
     (if k \<in> set ks
      then (case map_of positions k of
              None \<Rightarrow> None
            | Some d \<Rightarrow> if d_relativeTo d \<noteq> None then None else Some d)
      else map_of positions k)"
proof (induction ks arbitrary: positions)
  case Nil
  then show ?case by simp
next
  case (Cons k0 ks)
  show ?case
    by (cases "map_of positions k0"; cases "map_of positions k")
       (auto simp: Cons.IH delete_conv')
qed

lemma map_of_asDict_positions:
  "map_of (map (\<lambda>(k, tsPos). (k, asDict tsPos)) lp) k = map_option asDict (map_of lp k)"
  by (induction lp) auto

lemma fst_asDict_positions: "map fst (map (\<lambda>(k, tsPos). (k, asDict tsPos)) lp) = map fst lp"
  by (induction lp) auto

text \<open>
  Claim C7. With \<open>doIncludeToolsWithRelativePositions\<close> at its default \<open>False\<close>, an
  export that is not cancelled writes a snapshot that holds, for every key, exactly the
  dict of the stored pose when that pose has no \<open>relativeTo\<close>, and no entry when the
  stored pose has a \<open>relativeTo\<close> or the key has no stored pose.
\<close>

theorem C7_export_default_filter:
  assumes "exportPositionsSnapshot filepath dialogAnswer False s = Some (path, snapshot)"
  shows "map_of snapshot k =
           (case map_of (latestPositions (positionsClient s)) k of
              None \<Rightarrow> None
            | Some tsPos \<Rightarrow> if relativeTo tsPos = None then Some (asDict tsPos) else None)"
proof -
  let ?positions = "map (\<lambda>(k, tsPos). (k, asDict tsPos)) (latestPositions (positionsClient s))"
  from assms have snap: "snapshot = dropRelativePositions (map fst ?positions) ?positions"
    by (auto simp: exportPositionsSnapshot_def Let_def split: if_splits)
  have "map fst ?positions = map fst (latestPositions (positionsClient s))"
    by (rule fst_asDict_positions)
  then have dom: "k \<in> set (map fst ?positions) \<longleftrightarrow>
      map_of (latestPositions (positionsClient s)) k \<noteq> None"
    by (simp only: map_of_eq_None_iff set_map) simp
  show ?thesis
    unfolding snap map_of_dropRelativePositions map_of_asDict_positions
    using dom by (auto simp: asDict_def split: option.splits)
qed

text \<open>The theorem at a concrete state.\<close>

theorem C7_export_default_filter_witness:
  "exportPositionsSnapshot (Some ''snapshot.json'') [] False ex_two_tools_panel
     = Some (''snapshot.json'', [(''T1'', asDict (ex_pose (translation 1 2 3)))])
   \<and> map_of [(''T1'', asDict (ex_pose (translation 1 2 3)))] ''T1''
       = Some (asDict (ex_pose (translation 1 2 3)))
   \<and> map_of [(''T1'', asDict (ex_pose (translation 1 2 3)))] ''T2'' = None
   \<and> map_of (latestPositions (positionsClient ex_two_tools_panel)) ''T2''
       = Some (ex_relative_pose (translation 0 0 1) ''T1'')"
proof -
  have e: "exportPositionsSnapshot (Some ''snapshot.json'') [] False ex_two_tools_panel
     = Some (''snapshot.json'', [(''T1'', asDict (ex_pose (translation 1 2 3)))])"
    by (simp add: exportPositionsSnapshot_def ex_two_tools_panel_def ex_panel_def ex_client_def
        ex_pose_def ex_relative_pose_def asDict_def)
  have before: "map_of (latestPositions (positionsClient ex_two_tools_panel)) ''T2''
                  = Some (ex_relative_pose (translation 0 0 1) ''T1'')"
    by (simp add: ex_two_tools_panel_def ex_panel_def ex_client_def)
  from C7_export_default_filter [OF e, of "''T1''"] C7_export_default_filter [OF e, of "''T2''"]
    e before
  show ?thesis by simp
qed

section \<open>Export and import round trip\<close>

lemma recordNewPosition_async_Inr:
  "recordNewPosition_async c k p = Inr c' \<Longrightarrow>
     latestPositions c' = AList.update k p (latestPositions c) \<and> serverAcks c' = serverAcks c"
  by (auto simp: recordNewPosition_async_def split: if_splits)

lemma recordNewPosition_async_acked:
  "serverAcks c k p \<Longrightarrow>
     recordNewPosition_async c k p = Inr (c\<lparr>latestPositions := AList.update k p (latestPositions c)\<rparr>)"
  by (simp add: recordNewPosition_async_def)

lemma recordImported_other_key:
  "recordImportedPositions clock j ps c = (None, c') \<Longrightarrow> k \<notin> fst ` set ps \<Longrightarrow>
     map_of (latestPositions c') k = map_of (latestPositions c) k"
proof (induction ps arbitrary: c j)
  case Nil
  then show ?case by simp
next
  case (Cons kp ps)
  obtain k0 p0 where kp: "kp = (k0, p0)" by (cases kp)
  from Cons.prems(1) obtain c1 where
    rec: "recordNewPosition_async c k0 (p0\<lparr>time := clock j\<rparr>) = Inr c1"
    and rest: "recordImportedPositions clock (Suc j) ps c1 = (None, c')"
    by (auto simp: kp split: sum.splits)
  from Cons.prems(2) have "k \<noteq> k0" "k \<notin> fst ` set ps" by (auto simp: kp)
  with Cons.IH [OF rest] recordNewPosition_async_Inr [OF rec] show ?case
    by (simp add: update_conv')
qed

lemma recordImported_nth:
  "recordImportedPositions clock j ps c = (None, c') \<Longrightarrow> distinct (map fst ps) \<Longrightarrow>
   i < length ps \<Longrightarrow>
     map_of (latestPositions c') (fst (ps ! i)) = Some ((snd (ps ! i))\<lparr>time := clock (j + i)\<rparr>)"
proof (induction ps arbitrary: c j i)
  case Nil
  then show ?case by simp
next
  case (Cons kp ps)
  obtain k0 p0 where kp: "kp = (k0, p0)" by (cases kp)
  from Cons.prems(1) obtain c1 where
    rec: "recordNewPosition_async c k0 (p0\<lparr>time := clock j\<rparr>) = Inr c1"
    and rest: "recordImportedPositions clock (Suc j) ps c1 = (None, c')"
    by (auto simp: kp split: sum.splits)
  from Cons.prems(2) have fresh: "k0 \<notin> fst ` set ps" and dist: "distinct (map fst ps)"
    by (auto simp: kp)
  show ?case
  proof (cases i)
    case 0
    have "map_of (latestPositions c') k0 = map_of (latestPositions c1) k0"
      by (rule recordImported_other_key [OF rest fresh])
    with recordNewPosition_async_Inr [OF rec] show ?thesis
      by (simp add: 0 kp update_conv')
  next
    case (Suc i')
    with Cons.prems(3) have "i' < length ps" by simp
    from Cons.IH [OF rest dist this] show ?thesis
      by (simp add: Suc)
  qed
qed

lemma fromDict_asDict: "fromDict (asDict tsPos) = tsPos"
  by (simp add: fromDict_def asDict_def)

lemma fromDict_asDict_positions:
  "map (\<lambda>(k, v). (k, fromDict v)) (map (\<lambda>(k, tsPos). (k, asDict tsPos)) lp) = lp"
  by (induction lp) (auto simp: fromDict_asDict)

lemma recordImported_acked:
  "\<forall>k p. serverAcks c k p \<Longrightarrow> fst (recordImportedPositions clock j ps c) = None"
proof (induction ps arbitrary: c j)
  case Nil
  then show ?case by simp
next
  case (Cons kp ps)
  obtain k0 p0 where kp: "kp = (k0, p0)" by (cases kp)
  show ?case
    using Cons.prems by (simp add: kp recordNewPosition_async_acked Cons.IH)
qed

text \<open>
  Claim C8. A snapshot exported with the filter for relative poses disabled
  (\<open>doIncludeToolsWithRelativePositions = True\<close>) and then imported from the written
  file, without an exception, leaves in the importing client, for every entry \<open>i\<close> of the
  exported poses, under the same key the same pose (transform and \<open>relativeTo\<close>) with
  its time overwritten by the reading of the clock at the import. The keys of the
  exported poses are those of a dict, hence distinct.
\<close>

theorem C8_export_import_round_trip:
  assumes exported: "exportPositionsSnapshot filepath dialogAnswer True s = Some (path, snapshot)"
    and written: "files path = Some snapshot"
    and imported: "fst (importPositionsSnapshot clock files (Some path) dialogAnswer' None s2) = None"
    and keys: "distinct (map fst (latestPositions (positionsClient s)))"
    and i: "i < length (latestPositions (positionsClient s))"
  shows "map_of (latestPositions (positionsClient
             (snd (importPositionsSnapshot clock files (Some path) dialogAnswer' None s2))))
           (fst (latestPositions (positionsClient s) ! i))
         = Some ((snd (latestPositions (positionsClient s) ! i))\<lparr>time := clock i\<rparr>)"
proof -
  let ?lp = "latestPositions (positionsClient s)"
  from exported have snap: "snapshot = map (\<lambda>(k, tsPos). (k, asDict tsPos)) ?lp"
    and path: "length path \<noteq> 0"
    by (auto simp: exportPositionsSnapshot_def Let_def split: if_splits)
  obtain r c where
    loop: "recordImportedPositions clock 0 ?lp (positionsClient s2) = (r, c)"
    by (cases "recordImportedPositions clock 0 ?lp (positionsClient s2)")
  have conv: "map (\<lambda>(k, v). (k, fromDict v)) snapshot = ?lp"
    unfolding snap by (rule fromDict_asDict_positions)
  have run: "importPositionsSnapshot clock files (Some path) dialogAnswer' None s2 =
               (r, s2\<lparr>positionsClient := c\<rparr>)"
    using path written loop
    by (simp add: importPositionsSnapshot_def conv)
  with imported have "r = None" by simp
  from recordImported_nth [OF loop [unfolded this] keys i] show ?thesis
    by (simp add: run)
qed

text \<open>The theorem at a concrete state.\<close>

theorem C8_export_import_round_trip_witness:
  "exportPositionsSnapshot (Some ''snapshot.json'') [] True ex_two_tools_panel
     = Some (''snapshot.json'', ex_snapshot)
   \<and> fst (importPositionsSnapshot (\<lambda>i. 10 + real i) ex_files (Some ''snapshot.json'') [] None
        ex_drag_panel) = None
   \<and> map_of (latestPositions (positionsClient (snd
        (importPositionsSnapshot (\<lambda>i. 10 + real i) ex_files (Some ''snapshot.json'') [] None
           ex_drag_panel)))) ''T2''
       = Some ((ex_relative_pose (translation 0 0 1) ''T1'')\<lparr>time := 11\<rparr>)"
proof -
  have e: "exportPositionsSnapshot (Some ''snapshot.json'') [] True ex_two_tools_panel
     = Some (''snapshot.json'', ex_snapshot)"
    by (simp add: exportPositionsSnapshot_def ex_two_tools_panel_def ex_panel_def ex_client_def
        ex_snapshot_def)
  have w: "ex_files ''snapshot.json'' = Some ex_snapshot"
    by (simp add: ex_files_def)
  have f: "fst (importPositionsSnapshot (\<lambda>i. 10 + real i) ex_files (Some ''snapshot.json'') []
              None ex_drag_panel) = None"
    by (simp add: importPositionsSnapshot_def ex_files_def ex_snapshot_def
        recordNewPosition_async_def ex_drag_panel_def ex_panel_def ex_client_def)
  have d: "distinct (map fst (latestPositions (positionsClient ex_two_tools_panel)))"
    by (simp add: ex_two_tools_panel_def ex_panel_def ex_client_def)
  have i: "Suc 0 < length (latestPositions (positionsClient ex_two_tools_panel))"
    by (simp add: ex_two_tools_panel_def ex_panel_def ex_client_def)
  have nth: "latestPositions (positionsClient ex_two_tools_panel) ! Suc 0
               = (''T2'', ex_relative_pose (translation 0 0 1) ''T1'')"
    by (simp add: ex_two_tools_panel_def ex_panel_def ex_client_def)
  from C8_export_import_round_trip [OF e w f d i] e f show ?thesis
    by (simp add: nth)
qed

section \<open>A drag session that ends with an exception\<close>

lemma selectAndMoveTool_returned_removes:
  assumes "selectAndMoveTool clock pickedActor pickResult transfs dragEnd s = (None, s')"
    and "pickedKeyOf (actors s) (case pickedActor of None \<Rightarrow> pickResult | Some h \<Rightarrow> h)
           = Inr pickedKey"
  shows "pickedKey \<notin> currentlyMovingActors s'"
  using assms
  by (auto simp: selectAndMoveTool_def Let_def
      split: sum.splits if_splits option.splits prod.splits)

text \<open>
  Claim C4 says that the dragged actor key leaves the MovingSet on every exit path of
  \<open>selectAndMoveTool\<close>. The removal is the statement after the awaited move, so it runs
  when the move returns (\<open>selectAndMoveTool_returned_removes\<close>) and is skipped when the
  move raises. At the drag of the tool actor of \<open>T1\<close> that is cancelled from outside, the
  session ends with \<open>CancelledError\<close> and the key \<open>T1_tool\<close> is still in the MovingSet;
  the next session on the same actor then fails the assertion at its start.
\<close>

theorem C4_cancelled_drag_keeps_key:
  "fst (selectAndMoveTool (\<lambda>i. 5) (Some 7) 0 [translation 4 5 6] DragCancelled ex_drag_panel)
     = Some CancelledError
   \<and> ''T1_tool'' \<in> currentlyMovingActors
        (snd (selectAndMoveTool (\<lambda>i. 5) (Some 7) 0 [translation 4 5 6] DragCancelled ex_drag_panel))
   \<and> fst (selectAndMoveTool (\<lambda>i. 6) (Some 7) 0 [] DragFinished
        (snd (selectAndMoveTool (\<lambda>i. 5) (Some 7) 0 [translation 4 5 6] DragCancelled ex_drag_panel)))
     = Some AssertionError"
  by (simp add: selectAndMoveTool_def pickedKeyOf_def pickedToolOf_def
        onNewTransf_def ex_drag_panel_def ex_panel_def ex_tool_def ex_client_def ex_actor_def
        endswith_def invertTransform_def concatenateTransforms_def scaling_def translation_def
        eye4_def transpose4_def det4_def adjugate4_def Let_def recordNewPosition_sync_def)

section \<open>The rendering loop changes only the actors of the tool at hand\<close>

lemma sameExceptActors_refl: "sameExceptActors A s s"
  by (simp add: sameExceptActors_def)

lemma sameExceptActors_trans:
  "sameExceptActors A s s1 \<Longrightarrow> sameExceptActors A s1 s2 \<Longrightarrow> sameExceptActors A s s2"
  by (simp add: sameExceptActors_def)

lemma sameExceptActors_mono:
  "sameExceptActors A s s' \<Longrightarrow> A \<subseteq> B \<Longrightarrow> sameExceptActors B s s'"
  unfolding sameExceptActors_def
  by (auto simp: restrict_map_def fun_eq_iff split: if_splits)

lemma sameExceptActors_other:
  "sameExceptActors A s s' \<Longrightarrow> K \<notin> A \<Longrightarrow> map_of (actors s') K = map_of (actors s) K"
  unfolding sameExceptActors_def
  by (auto simp: restrict_map_def fun_eq_iff split: if_splits)

lemma hiddenActor_invisible: "\<not> visibility a \<Longrightarrow> hiddenActor a = a"
  by (cases a) (simp add: hiddenActor_def)

lemma hiddenActor_idem: "hiddenActor (hiddenActor a) = hiddenActor a"
  by (simp add: hiddenActor_def)

lemma map_of_hideActors:
  "map_of (hideActors ks acts) K =
     (if K \<in> set ks then map_option hiddenActor (map_of acts K) else map_of acts K)"
proof (induction ks arbitrary: acts)
  case Nil
  then show ?case by simp
next
  case (Cons k0 ks)
  show ?case
  proof (cases "map_of acts k0")
    case None
    then show ?thesis by (auto simp: Cons.IH)
  next
    case (Some a)
    show ?thesis
    proof (cases "visibility a")
      case True
      with Some show ?thesis
        by (auto simp: Cons.IH update_conv' hiddenActor_def [symmetric] hiddenActor_idem)
    next
      case False
      with Some show ?thesis
        using hiddenActor_invisible [OF False]
        by (auto simp: Cons.IH)
    qed
  qed
qed

lemma renderToolOrTracker_frame:
  assumes "renderToolOrTracker k tool ak tt (d, s) = (r, d', s')"
  shows "sameExceptActors {ak} s s'"
  using assms unfolding renderToolOrTracker_def sameExceptActors_def
  by (auto simp: Let_def addMesh_def update_conv' restrict_map_def fun_eq_iff
      split: if_splits option.splits sum.splits prod.splits)

lemma renderSubject_frame:
  assumes "renderSubject tool ak (d, s) = (r, d', s')"
  shows "sameExceptActors {ak} s s'"
  using assms unfolding renderSubject_def sameExceptActors_def
  by (auto simp: Let_def addMesh_def update_conv' restrict_map_def fun_eq_iff
      split: if_splits option.splits sum.splits prod.splits)

lemma reconcileVisibility_frame: "sameExceptActors {ak} s (reconcileVisibility ak d s)"
  unfolding reconcileVisibility_def sameExceptActors_def
  by (auto simp: update_conv' restrict_map_def fun_eq_iff split: option.splits)

lemma updateActor_frame:
  assumes "updateActor k tool ak s = (r, s')"
  shows "sameExceptActors ({ak} - currentlyMovingActors s) s s'"
proof (cases "ak \<in> currentlyMovingActors s")
  case True
  with assms have "s' = s" by (simp add: updateActor_def)
  then show ?thesis by (simp add: sameExceptActors_refl)
next
  case False
  obtain r1 d1 s1 where a: "renderToolOrTracker k tool ak OfTracker (False, s) = (r1, d1, s1)"
    by (cases "renderToolOrTracker k tool ak OfTracker (False, s)")
  obtain r2 d2 s2 where b: "renderToolOrTracker k tool ak OfTool (d1, s1) = (r2, d2, s2)"
    by (cases "renderToolOrTracker k tool ak OfTool (d1, s1)")
  obtain r3 d3 s3 where c: "renderSubject tool ak (d2, s2) = (r3, d3, s3)"
    by (cases "renderSubject tool ak (d2, s2)")
  note f1 = renderToolOrTracker_frame [OF a]
  note f2 = sameExceptActors_trans [OF f1 renderToolOrTracker_frame [OF b]]
  note f3 = sameExceptActors_trans [OF f2 renderSubject_frame [OF c]]
  note f4 = sameExceptActors_trans [OF f3 reconcileVisibility_frame [of ak s3 d3]]
  from assms False a b c have "s' = s1 \<or> s' = s2 \<or> s' = s3 \<or> s' = reconcileVisibility ak d3 s3"
    by (auto simp: updateActor_def split: option.splits)
  with f1 f2 f3 f4 have "sameExceptActors {ak} s s'" by auto
  moreover from False have "{ak} - currentlyMovingActors s = {ak}" by auto
  ultimately show ?thesis by simp
qed

lemma updateActors_frame:
  "updateActors k tool aks s = (r, s') \<Longrightarrow>
     sameExceptActors (set aks - currentlyMovingActors s) s s'"
proof (induction aks arbitrary: s)
  case Nil
  then show ?case by (simp add: sameExceptActors_refl)
next
  case (Cons ak aks)
  obtain r1 s1 where a: "updateActor k tool ak s = (r1, s1)"
    by (cases "updateActor k tool ak s")
  note f1 = updateActor_frame [OF a]
  then have mov: "currentlyMovingActors s1 = currentlyMovingActors s"
    by (simp add: sameExceptActors_def)
  have f1': "sameExceptActors (set (ak # aks) - currentlyMovingActors s) s s1"
    by (rule sameExceptActors_mono [OF f1]) auto
  show ?case
  proof (cases r1)
    case None
    with Cons.prems a have "updateActors k tool aks s1 = (r, s')" by simp
    from Cons.IH [OF this] have "sameExceptActors (set (ak # aks) - currentlyMovingActors s) s1 s'"
      unfolding mov by (rule sameExceptActors_mono) auto
    with f1' show ?thesis by (rule sameExceptActors_trans)
  next
    case (Some e)
    with Cons.prems a have "s' = s1" by simp
    with f1' show ?thesis by simp
  qed
qed

lemma refreshTool_inactive:
  "noValidPosition (positionsClient s) tool \<Longrightarrow>
     refreshTool k tool s = (None, s\<lparr>actors := hideActors (actorKeysForTool k tool) (actors s)\<rparr>)"
  by (auto simp: refreshTool_def noValidPosition_def)

lemma refreshTool_active:
  "\<not> noValidPosition (positionsClient s) tool \<Longrightarrow>
     refreshTool k tool s = updateActors k tool (actorKeysForTool k tool) s"
  by (auto simp: refreshTool_def noValidPosition_def)

lemma refreshTool_frame:
  assumes "refreshTool k tool s = (r, s')"
  shows "sameExceptActors (set (actorKeysForTool k tool)) s s'"
proof (cases "noValidPosition (positionsClient s) tool")
  case True
  from assms [unfolded refreshTool_inactive [OF True]] show ?thesis
    by (auto simp: sameExceptActors_def map_of_hideActors restrict_map_def fun_eq_iff)
next
  case False
  from assms [unfolded refreshTool_active [OF False]] have
    "sameExceptActors (set (actorKeysForTool k tool) - currentlyMovingActors s) s s'"
    by (rule updateActors_frame)
  then show ?thesis by (rule sameExceptActors_mono) auto
qed

lemma refreshTool_moving:
  assumes "refreshTool k tool s = (r, s')" and "K \<in> currentlyMovingActors s"
  shows "map_of (actors s') K = map_of (actors s) K \<or>
         (noValidPosition (positionsClient s) tool \<and> K \<in> set (actorKeysForTool k tool) \<and>
          map_of (actors s') K = map_option hiddenActor (map_of (actors s) K))"
proof (cases "noValidPosition (positionsClient s) tool")
  case True
  from assms(1) [unfolded refreshTool_inactive [OF True]] True show ?thesis
    by (cases "K \<in> set (actorKeysForTool k tool)") (auto simp: map_of_hideActors)
next
  case False
  from assms(1) [unfolded refreshTool_active [OF False]] have
    "sameExceptActors (set (actorKeysForTool k tool) - currentlyMovingActors s) s s'"
    by (rule updateActors_frame)
  from sameExceptActors_other [OF this, of K] assms(2) show ?thesis by simp
qed

lemma tracker_key_not_tool_key: "k @ ''_tracker'' \<noteq> k' @ ''_tool''"
proof
  assume "k @ ''_tracker'' = k' @ ''_tool''"
  then have "last (k @ ''_tracker'') = last (k' @ ''_tool'')" by (rule arg_cong)
  then show False by simp
qed

lemma tracker_key_not_subject_key: "k @ ''_tracker'' \<noteq> k' @ ''_subject''"
proof
  assume "k @ ''_tracker'' = k' @ ''_subject''"
  then have "last (k @ ''_tracker'') = last (k' @ ''_subject'')" by (rule arg_cong)
  then show False by simp
qed

lemma tool_key_not_subject_key: "k @ ''_tool'' \<noteq> k' @ ''_subject''"
proof
  assume "k @ ''_tool'' = k' @ ''_subject''"
  then have "last (k @ ''_tool'') = last (k' @ ''_subject'')" by (rule arg_cong)
  then show False by simp
qed

lemmas actorKey_suffixes_differ =
  tracker_key_not_tool_key tracker_key_not_subject_key tool_key_not_subject_key
  tracker_key_not_tool_key [symmetric] tracker_key_not_subject_key [symmetric]
  tool_key_not_subject_key [symmetric]

lemma actorKeys_owner:
  assumes "K \<in> set (actorKeysForTool k tool)" and "K \<in> set (actorKeysForTool k' tool')"
  shows "k = k'"
  using assms
  by (auto simp: actorKeysForTool_def actorKey_suffixes_differ split: if_splits)

lemma refreshTools_invariant:
  "refreshTools ts s = (r, s') \<Longrightarrow>
     currentlyMovingActors s' = currentlyMovingActors s \<and>
     positionsClient s' = positionsClient s \<and> session s' = session s \<and>
     hasRestoredPositions s' = hasRestoredPositions s"
proof (induction ts arbitrary: s)
  case Nil
  then show ?case by simp
next
  case (Cons kt ts)
  obtain k tool where kt: "kt = (k, tool)" by (cases kt)
  obtain r1 s1 where a: "refreshTool k tool s = (r1, s1)" by (cases "refreshTool k tool s")
  note f = refreshTool_frame [OF a, unfolded sameExceptActors_def]
  show ?case
  proof (cases r1)
    case None
    with Cons.prems a have "refreshTools ts s1 = (r, s')" by (simp add: kt)
    from Cons.IH [OF this] f show ?thesis by simp
  next
    case (Some e)
    with Cons.prems a have "s' = s1" by (simp add: kt)
    with f show ?thesis by simp
  qed
qed

lemma refreshTools_other_keys:
  "refreshTools ts s = (r, s') \<Longrightarrow>
   (\<And>k tool. (k, tool) \<in> set ts \<Longrightarrow> K \<notin> set (actorKeysForTool k tool)) \<Longrightarrow>
     map_of (actors s') K = map_of (actors s) K"
proof (induction ts arbitrary: s)
  case Nil
  then show ?case by simp
next
  case (Cons kt ts)
  obtain k tool where kt: "kt = (k, tool)" by (cases kt)
  obtain r1 s1 where a: "refreshTool k tool s = (r1, s1)" by (cases "refreshTool k tool s")
  have "K \<notin> set (actorKeysForTool k tool)" using Cons.prems(2) [of k tool] by (simp add: kt)
  from sameExceptActors_other [OF refreshTool_frame [OF a] this]
  have step: "map_of (actors s1) K = map_of (actors s) K" .
  show ?case
  proof (cases r1)
    case None
    with Cons.prems(1) a have "refreshTools ts s1 = (r, s')" by (simp add: kt)
    from Cons.IH [OF this] Cons.prems(2) step show ?thesis by simp
  next
    case (Some e)
    with Cons.prems(1) a have "s' = s1" by (simp add: kt)
    with step show ?thesis by simp
  qed
qed

lemma refreshTools_hides:
  "refreshTools ts s = (None, s') \<Longrightarrow> distinct (map fst ts) \<Longrightarrow> (k, tool) \<in> set ts \<Longrightarrow>
   noValidPosition (positionsClient s) tool \<Longrightarrow> K \<in> set (actorKeysForTool k tool) \<Longrightarrow>
     map_of (actors s') K = map_option hiddenActor (map_of (actors s) K)"
proof (induction ts arbitrary: s)
  case Nil
  then show ?case by simp
next
  case (Cons kt ts)
  obtain k0 tool0 where kt: "kt = (k0, tool0)" by (cases kt)
  obtain r1 s1 where a: "refreshTool k0 tool0 s = (r1, s1)" by (cases "refreshTool k0 tool0 s")
  with Cons.prems(1) have r1: "r1 = None" and rest: "refreshTools ts s1 = (None, s')"
    by (auto simp: kt split: option.splits)
  from Cons.prems(2) have fresh: "k0 \<notin> fst ` set ts" and dist: "distinct (map fst ts)"
    by (auto simp: kt)
  show ?case
  proof (cases "(k, tool) = (k0, tool0)")
    case True
    then have eq: "k0 = k" "tool0 = tool" by simp_all
    have "map_of (actors s') K = map_of (actors s1) K"
    proof (rule refreshTools_other_keys [OF rest])
      fix k' tool' assume mem: "(k', tool') \<in> set ts"
      show "K \<notin> set (actorKeysForTool k' tool')"
      proof
        assume "K \<in> set (actorKeysForTool k' tool')"
        from actorKeys_owner [OF Cons.prems(5) this] have "k' = k" by simp
        with mem fresh eq show False by force
      qed
    qed
    moreover from a [unfolded eq refreshTool_inactive [OF Cons.prems(4)]] Cons.prems(5)
    have "map_of (actors s1) K = map_option hiddenActor (map_of (actors s) K)"
      by (auto simp: map_of_hideActors)
    ultimately show ?thesis by simp
  next
    case False
    with Cons.prems(3) have mem: "(k, tool) \<in> set ts" by (auto simp: kt)
    with fresh have "k \<noteq> k0" by force
    then have "K \<notin> set (actorKeysForTool k0 tool0)"
      using actorKeys_owner [OF Cons.prems(5)] by blast
    from sameExceptActors_other [OF refreshTool_frame [OF a] this]
    have step: "map_of (actors s1) K = map_of (actors s) K" .
    have "positionsClient s1 = positionsClient s"
      using refreshTool_frame [OF a] by (simp add: sameExceptActors_def)
    with Cons.prems(4) have "noValidPosition (positionsClient s1) tool" by simp
    from Cons.IH [OF rest dist mem this Cons.prems(5)] step show ?thesis by simp
  qed
qed

lemma map_option_hiddenActor_idem:
  "map_option hiddenActor (map_option hiddenActor x) = map_option hiddenActor x"
  by (cases x) (simp_all add: hiddenActor_idem)

lemma refreshTools_moving:
  "refreshTools ts s = (r, s') \<Longrightarrow> K \<in> currentlyMovingActors s \<Longrightarrow>
     map_of (actors s') K = map_of (actors s) K \<or>
     ((\<exists>k tool. (k, tool) \<in> set ts \<and> noValidPosition (positionsClient s) tool \<and>
                 K \<in> set (actorKeysForTool k tool)) \<and>
      map_of (actors s') K = map_option hiddenActor (map_of (actors s) K))"
proof (induction ts arbitrary: s)
  case Nil
  then show ?case by simp
next
  case (Cons kt ts)
  obtain k0 tool0 where kt: "kt = (k0, tool0)" by (cases kt)
  obtain r1 s1 where a: "refreshTool k0 tool0 s = (r1, s1)" by (cases "refreshTool k0 tool0 s")
  note f = refreshTool_frame [OF a, unfolded sameExceptActors_def]
  note step = refreshTool_moving [OF a Cons.prems(2)]
  show ?case
  proof (cases r1)
    case (Some e)
    with Cons.prems(1) a have "s' = s1" by (simp add: kt)
    with step show ?thesis by (auto simp: kt)
  next
    case None
    with Cons.prems(1) a have rest: "refreshTools ts s1 = (r, s')" by (simp add: kt)
    from f Cons.prems(2) have "K \<in> currentlyMovingActors s1" by simp
    note ih = Cons.IH [OF rest this]
    from f have c: "positionsClient s1 = positionsClient s" by simp
    from step ih show ?thesis
      unfolding c kt by (auto simp: map_option_hiddenActor_idem)
  qed
qed

section \<open>The startup restore\<close>

lemma getLatestTransf_present:
  "map_of (latestPositions c) k = Some p \<Longrightarrow> getLatestTransf c k = Inr (transf p)"
  by (simp add: getLatestTransf_def)

lemma getLatestTransf_absent:
  "map_of (latestPositions c) k = None \<Longrightarrow> getLatestTransf c k = Inl KeyError"
  by (simp add: getLatestTransf_def)

lemma restorePositions_keeps:
  "restorePositions clock i ps c = (r, c') \<Longrightarrow> map_of (latestPositions c) k = Some p \<Longrightarrow>
     map_of (latestPositions c') k = Some p"
proof (induction ps arbitrary: c i)
  case Nil
  then show ?case by simp
next
  case (Cons kp ps)
  obtain tk pose where kp: "kp = (tk, pose)" by (cases kp)
  show ?case
  proof (cases "pose_transf pose = None \<or> map_of (latestPositions c) tk \<noteq> None")
    case True
    with Cons.prems(1) have "restorePositions clock (Suc i) ps c = (r, c')"
      by (cases "pose_transf pose = None") (auto simp: kp getLatestTransf_present)
    from Cons.IH [OF this Cons.prems(2)] show ?thesis .
  next
    case False
    then have absent: "map_of (latestPositions c) tk = None" and some: "pose_transf pose \<noteq> None"
      by auto
    let ?pos = "\<lparr>time = clock i, transf = pose_transf pose, relativeTo = pose_relativeTo pose\<rparr>"
    show ?thesis
    proof (cases "recordNewPosition_sync c tk ?pos")
      case (Inl e)
      with Cons.prems(1) absent some have "c' = c"
        by (auto simp: kp getLatestTransf_absent)
      with Cons.prems(2) show ?thesis by simp
    next
      case (Inr c1)
      with Cons.prems(1) absent some have rest: "restorePositions clock (Suc i) ps c1 = (r, c')"
        by (auto simp: kp getLatestTransf_absent)
      from absent Cons.prems(2) have "k \<noteq> tk" by auto
      with recordNewPosition_sync_Inr [OF Inr] Cons.prems(2)
      have "map_of (latestPositions c1) k = Some p" by (simp add: update_conv')
      from Cons.IH [OF rest this] show ?thesis .
    qed
  qed
qed

text \<open>The state after the restore and mirror phases, before the rendering loop.\<close>

lemma onLatestPositionsChanged_cases:
  assumes "onLatestPositionsChanged clock s = (r, s')"
  obtains
    (restore_failed) e c where
      "\<not> hasRestoredPositions s"
      "restorePositions clock 0 (config_poses (session s)) (positionsClient s) = (Some e, c)"
      "r = Some e" "s' = s\<lparr>positionsClient := c\<rparr>"
  | (rendered) s2 where
      "actors s2 = actors s" "currentlyMovingActors s2 = currentlyMovingActors s"
      "tools (session s2) = tools (session s)" "hasRestoredPositions s2"
      "hasInitialized s2 = hasInitialized s" "isInitializing s2 = isInitializing s"
      "hasRestoredPositions s \<longrightarrow> positionsClient s2 = positionsClient s"
      "\<not> hasRestoredPositions s \<longrightarrow>
         restorePositions clock 0 (config_poses (session s)) (positionsClient s) =
           (None, positionsClient s2)"
      "if \<not> hasInitialized s \<and> \<not> isInitializing s then r = None \<and> s' = s2
       else refreshTools (tools (session s)) s2 = (r, s')"
proof (cases "hasRestoredPositions s")
  case True
  let ?s2 = "s\<lparr>session := (session s)\<lparr>config_poses :=
                mirrorPoses (positionsClient s) (tools (session s)) (config_poses (session s))\<rparr>\<rparr>"
  show ?thesis
  proof (rule rendered [of ?s2])
    show "if \<not> hasInitialized s \<and> \<not> isInitializing s then r = None \<and> s' = ?s2
          else refreshTools (tools (session s)) ?s2 = (r, s')"
      using assms True by (auto simp: onLatestPositionsChanged_def Let_def)
  qed (use True in simp_all)
next
  case False
  obtain r0 c where rp:
    "restorePositions clock 0 (config_poses (session s)) (positionsClient s) = (r0, c)"
    by (cases "restorePositions clock 0 (config_poses (session s)) (positionsClient s)")
  show ?thesis
  proof (cases r0)
    case (Some e)
    show ?thesis
    proof (rule restore_failed [of e c])
      show "r = Some e" "s' = s\<lparr>positionsClient := c\<rparr>"
        using assms False rp Some by (auto simp: onLatestPositionsChanged_def)
    qed (use False rp Some in simp_all)
  next
    case None
    let ?s1 = "s\<lparr>positionsClient := c, hasRestoredPositions := True\<rparr>"
    let ?s2 = "?s1\<lparr>session := (session ?s1)\<lparr>config_poses :=
                  mirrorPoses (positionsClient ?s1) (tools (session ?s1))
                    (config_poses (session ?s1))\<rparr>\<rparr>"
    show ?thesis
    proof (rule rendered [of ?s2])
      show "if \<not> hasInitialized s \<and> \<not> isInitializing s then r = None \<and> s' = ?s2
            else refreshTools (tools (session s)) ?s2 = (r, s')"
        using assms False rp None by (auto simp: onLatestPositionsChanged_def Let_def)
    qed (use False rp None in simp_all)
  qed
qed

lemma onLatestPositionsChanged_restored:
  assumes "onLatestPositionsChanged clock s = (r, s')" and "hasRestoredPositions s"
  shows "positionsClient s' = positionsClient s \<and> hasRestoredPositions s'"
  using assms(1)
proof (cases rule: onLatestPositionsChanged_cases)
  case (restore_failed e c)
  with assms(2) show ?thesis by simp
next
  case (rendered s2)
  show ?thesis
  proof (cases "\<not> hasInitialized s \<and> \<not> isInitializing s")
    case True
    with rendered assms(2) show ?thesis by simp
  next
    case False
    with rendered(9) have "refreshTools (tools (session s)) s2 = (r, s')" by simp
    from refreshTools_invariant [OF this] rendered assms(2) show ?thesis by simp
  qed
qed

lemma onLatestPositionsChanged_sets_flag:
  assumes "onLatestPositionsChanged clock s = (None, s')"
  shows "hasRestoredPositions s'"
  using assms
proof (cases rule: onLatestPositionsChanged_cases)
  case (restore_failed e c)
  then show ?thesis by simp
next
  case (rendered s2)
  show ?thesis
  proof (cases "\<not> hasInitialized s \<and> \<not> isInitializing s")
    case True
    with rendered show ?thesis by simp
  next
    case False
    with rendered(9) have "refreshTools (tools (session s)) s2 = (None, s')" by simp
    from refreshTools_invariant [OF this] rendered show ?thesis by simp
  qed
qed

lemma onLatestPositionsChanged_keeps_pose:
  assumes "onLatestPositionsChanged clock s = (r, s')"
    and "map_of (latestPositions (positionsClient s)) k = Some p"
  shows "map_of (latestPositions (positionsClient s')) k = Some p"
  using assms(1)
proof (cases rule: onLatestPositionsChanged_cases)
  case (restore_failed e c)
  from restorePositions_keeps [OF restore_failed(2) assms(2)] restore_failed(4)
  show ?thesis by simp
next
  case (rendered s2)
  have s2: "map_of (latestPositions (positionsClient s2)) k = Some p"
  proof (cases "hasRestoredPositions s")
    case True
    with rendered(7) assms(2) show ?thesis by simp
  next
    case False
    with rendered(8) have
      "restorePositions clock 0 (config_poses (session s)) (positionsClient s) =
         (None, positionsClient s2)" by simp
    from restorePositions_keeps [OF this assms(2)] show ?thesis .
  qed
  show ?thesis
  proof (cases "\<not> hasInitialized s \<and> \<not> isInitializing s")
    case True
    with rendered s2 show ?thesis by simp
  next
    case False
    with rendered(9) have "refreshTools (tools (session s)) s2 = (r, s')" by simp
    from refreshTools_invariant [OF this] s2 show ?thesis by simp
  qed
qed

lemma refreshCycles_restored:
  "hasRestoredPositions s \<Longrightarrow>
     positionsClient (snd (refreshCycles clocks n s)) = positionsClient s \<and>
     hasRestoredPositions (snd (refreshCycles clocks n s))"
proof (induction n arbitrary: s)
  case 0
  then show ?case by simp
next
  case (Suc n)
  obtain r1 s1 where a: "onLatestPositionsChanged (clocks n) s = (r1, s1)"
    by (cases "onLatestPositionsChanged (clocks n) s")
  note step = onLatestPositionsChanged_restored [OF a Suc.prems]
  show ?case
  proof (cases r1)
    case None
    with a have "refreshCycles clocks (Suc n) s = refreshCycles clocks n s1" by simp
    with Suc.IH [of s1] step show ?thesis by simp
  next
    case (Some e)
    with a have "refreshCycles clocks (Suc n) s = (Some e, s1)" by simp
    with step show ?thesis by simp
  qed
qed

lemma onLatestPositionsChanged_flag:
  "hasRestoredPositions (snd (onLatestPositionsChanged clock s)) =
     (hasRestoredPositions s \<or>
      fst (restorePositions clock 0 (config_poses (session s)) (positionsClient s)) = None)"
proof -
  obtain r s' where run: "onLatestPositionsChanged clock s = (r, s')"
    by (cases "onLatestPositionsChanged clock s")
  from run show ?thesis
  proof (cases rule: onLatestPositionsChanged_cases)
    case (restore_failed e c)
    with run show ?thesis by simp
  next
    case (rendered s2)
    have "hasRestoredPositions s'"
    proof (cases "\<not> hasInitialized s \<and> \<not> isInitializing s")
      case True
      with rendered show ?thesis by simp
    next
      case False
      with rendered(9) have "refreshTools (tools (session s)) s2 = (r, s')" by simp
      from refreshTools_invariant [OF this] rendered(4) show ?thesis by simp
    qed
    moreover from rendered(8) have "hasRestoredPositions s \<or>
      fst (restorePositions clock 0 (config_poses (session s)) (positionsClient s)) = None"
      by (cases "hasRestoredPositions s") simp_all
    ultimately show ?thesis using run by simp
  qed
qed

text \<open>
  Claim C5, as amended. The restore is guarded by the one-shot flag
  \<open>_hasRestoredPositions\<close>, which a refresh sets when the restore loop has run to its
  end: the flag is set after a refresh exactly when it was set before or the loop
  completed in this refresh (so a refresh that returns without an exception has set it).
  Once the flag is set, no number of refresh cycles changes the positions client, and the
  flag stays set: a restore that has completed never runs again. And the restore never
  overwrites: a pose that the positions client holds for a key before a refresh is the
  pose it holds for that key after it.
\<close>

theorem C5_completed_restore_never_reruns:
  "(hasRestoredPositions s \<longrightarrow>
      positionsClient (snd (refreshCycles clocks n s)) = positionsClient s \<and>
      hasRestoredPositions (snd (refreshCycles clocks n s)))
   \<and> hasRestoredPositions (snd (onLatestPositionsChanged clock s)) =
       (hasRestoredPositions s \<or>
        fst (restorePositions clock 0 (config_poses (session s)) (positionsClient s)) = None)
   \<and> (fst (onLatestPositionsChanged clock s) = None \<longrightarrow>
        hasRestoredPositions (snd (onLatestPositionsChanged clock s)))
   \<and> (map_of (latestPositions (positionsClient s)) k = Some p \<longrightarrow>
        map_of (latestPositions (positionsClient (snd (onLatestPositionsChanged clock s)))) k
          = Some p)"
proof (intro conjI impI)
  assume "hasRestoredPositions s"
  then show "positionsClient (snd (refreshCycles clocks n s)) = positionsClient s"
    and "hasRestoredPositions (snd (refreshCycles clocks n s))"
    by (simp_all add: refreshCycles_restored)
next
  show "hasRestoredPositions (snd (onLatestPositionsChanged clock s)) =
       (hasRestoredPositions s \<or>
        fst (restorePositions clock 0 (config_poses (session s)) (positionsClient s)) = None)"
    by (rule onLatestPositionsChanged_flag)
next
  assume "fst (onLatestPositionsChanged clock s) = None"
  then have "onLatestPositionsChanged clock s = (None, snd (onLatestPositionsChanged clock s))"
    by (cases "onLatestPositionsChanged clock s") simp
  then show "hasRestoredPositions (snd (onLatestPositionsChanged clock s))"
    by (rule onLatestPositionsChanged_sets_flag)
next
  assume "map_of (latestPositions (positionsClient s)) k = Some p"
  with onLatestPositionsChanged_keeps_pose [of clock s "fst (onLatestPositionsChanged clock s)"
      "snd (onLatestPositionsChanged clock s)" k p]
  show "map_of (latestPositions (positionsClient (snd (onLatestPositionsChanged clock s)))) k
          = Some p"
    by simp
qed

text \<open>The theorem at a concrete state.\<close>

theorem C5_completed_restore_never_reruns_witness:
  "\<not> hasRestoredPositions ex_restore_panel
   \<and> fst (onLatestPositionsChanged (\<lambda>i. 2) ex_restore_panel) = None
   \<and> fst (restorePositions (\<lambda>i. 2) 0 (config_poses (session ex_restore_panel))
        (positionsClient ex_restore_panel)) = None
   \<and> hasRestoredPositions (snd (onLatestPositionsChanged (\<lambda>i. 2) ex_restore_panel))
   \<and> map_of (latestPositions (positionsClient ex_restore_panel)) ''T2''
       = Some (ex_pose (translation 0 0 1))
   \<and> map_of (latestPositions (positionsClient
        (snd (onLatestPositionsChanged (\<lambda>i. 2) ex_restore_panel)))) ''T2''
       = Some (ex_pose (translation 0 0 1))
   \<and> positionsClient (snd (refreshCycles (\<lambda>n i. 3) 2
        (snd (onLatestPositionsChanged (\<lambda>i. 2) ex_restore_panel))))
       = positionsClient (snd (onLatestPositionsChanged (\<lambda>i. 2) ex_restore_panel))"
proof -
  let ?s1 = "snd (onLatestPositionsChanged (\<lambda>i. 2) ex_restore_panel)"
  have flag: "\<not> hasRestoredPositions ex_restore_panel"
    by (simp add: ex_restore_panel_def)
  have f: "fst (onLatestPositionsChanged (\<lambda>i. 2) ex_restore_panel) = None"
    by (simp add: ex_defs refresh_defs)
  have completed: "fst (restorePositions (\<lambda>i. 2) 0 (config_poses (session ex_restore_panel))
        (positionsClient ex_restore_panel)) = None"
    by (simp add: ex_defs refresh_defs)
  have before: "map_of (latestPositions (positionsClient ex_restore_panel)) ''T2''
                  = Some (ex_pose (translation 0 0 1))"
    by (simp add: ex_restore_panel_def ex_panel_def ex_client_def)
  note first = C5_completed_restore_never_reruns
    [of ex_restore_panel "\<lambda>n i. 3" 2 "\<lambda>i. 2" "''T2''" "ex_pose (translation 0 0 1)"]
  from first completed have s1: "hasRestoredPositions ?s1" by blast
  from first before have kept: "map_of (latestPositions (positionsClient ?s1)) ''T2''
      = Some (ex_pose (translation 0 0 1))" by blast
  note second = C5_completed_restore_never_reruns
    [of ?s1 "\<lambda>n i. 3" 2 "\<lambda>i. 2" "''T2''" "ex_pose (translation 0 0 1)"]
  from second s1 have "positionsClient (snd (refreshCycles (\<lambda>n i. 3) 2 ?s1)) = positionsClient ?s1"
    by blast
  with flag f completed s1 before kept show ?thesis by simp
qed

text \<open>
  The claim as stated, that the restore runs at most once, fails when a record command of
  the restore raises: the flag is set only after the loop. In the first refresh the
  restore records the persisted pose of \<open>T1\<close>, the command for \<open>T2\<close> times out, and the
  refresh ends with the flag unset; the second refresh runs the restore again and records
  the persisted pose of \<open>T2\<close>.
\<close>

theorem C5_counterexample:
  "\<not> hasRestoredPositions ex_timeout_panel
   \<and> fst (onLatestPositionsChanged (\<lambda>i. 2) ex_timeout_panel) = Some CommandError
   \<and> map_of (latestPositions (positionsClient
        (snd (onLatestPositionsChanged (\<lambda>i. 2) ex_timeout_panel)))) ''T1''
       = Some \<lparr>time = 2, transf = Some (translation 1 2 3), relativeTo = None\<rparr>
   \<and> map_of (latestPositions (positionsClient
        (snd (onLatestPositionsChanged (\<lambda>i. 2) ex_timeout_panel)))) ''T2'' = None
   \<and> \<not> hasRestoredPositions (snd (onLatestPositionsChanged (\<lambda>i. 2) ex_timeout_panel))
   \<and> fst (onLatestPositionsChanged (\<lambda>i. 6)
        (snd (onLatestPositionsChanged (\<lambda>i. 2) ex_timeout_panel))) = None
   \<and> map_of (latestPositions (positionsClient
        (snd (onLatestPositionsChanged (\<lambda>i. 6)
           (snd (onLatestPositionsChanged (\<lambda>i. 2) ex_timeout_panel)))))) ''T2''
       = Some \<lparr>time = 6, transf = Some (translation 9 9 9), relativeTo = None\<rparr>
   \<and> hasRestoredPositions (snd (onLatestPositionsChanged (\<lambda>i. 6)
        (snd (onLatestPositionsChanged (\<lambda>i. 2) ex_timeout_panel))))"
  by (simp add: ex_timeout_panel_def ex_defs refresh_defs)

section \<open>Actors under manipulation\<close>

lemma onLatestPositionsChanged_moving:
  assumes run: "onLatestPositionsChanged clock s = (r, s')"
    and moving: "K \<in> currentlyMovingActors s"
  shows "currentlyMovingActors s' = currentlyMovingActors s \<and>
         tools (session s') = tools (session s) \<and>
         (map_of (actors s') K = map_of (actors s) K \<or>
          ((\<exists>k tool. (k, tool) \<in> set (tools (session s)) \<and>
                      noValidPosition (positionsClient s') tool \<and>
                      K \<in> set (actorKeysForTool k tool)) \<and>
           hasRestoredPositions s' \<and>
           map_of (actors s') K = map_option hiddenActor (map_of (actors s) K)))"
  using run
proof (cases rule: onLatestPositionsChanged_cases)
  case (restore_failed e c)
  then show ?thesis by simp
next
  case (rendered s2)
  show ?thesis
  proof (cases "\<not> hasInitialized s \<and> \<not> isInitializing s")
    case True
    with rendered show ?thesis by simp
  next
    case False
    with rendered(9) have rt: "refreshTools (tools (session s)) s2 = (r, s')" by simp
    note inv = refreshTools_invariant [OF rt]
    from moving rendered(2) have "K \<in> currentlyMovingActors s2" by simp
    from refreshTools_moving [OF rt this] inv rendered show ?thesis
      by auto
  qed
qed

text \<open>
  Claim C2, as amended. For an actor key in the MovingSet and any number of refresh
  cycles, the entry of \<open>_actors\<close> for the key is afterwards either what it was (the
  displayed transform is never overwritten, the actor is neither created nor shown), or
  the same actor with its visibility turned off; and the second only when a tool of the
  session that owns the key is inactive or has no pose in the positions client.
\<close>

theorem C2_moving_actor_hidden_at_most:
  assumes "K \<in> currentlyMovingActors s"
  shows "map_of (actors (snd (refreshCycles clocks n s))) K = map_of (actors s) K \<or>
         ((\<exists>k tool. (k, tool) \<in> set (tools (session s)) \<and>
                     K \<in> set (actorKeysForTool k tool) \<and>
                     noValidPosition (positionsClient (snd (refreshCycles clocks n s))) tool) \<and>
          map_of (actors (snd (refreshCycles clocks n s))) K =
            map_option hiddenActor (map_of (actors s) K))"
  using assms
proof (induction n arbitrary: s)
  case 0
  then show ?case by simp
next
  case (Suc n)
  obtain r1 s1 where a: "onLatestPositionsChanged (clocks n) s = (r1, s1)"
    by (cases "onLatestPositionsChanged (clocks n) s")
  note step = onLatestPositionsChanged_moving [OF a Suc.prems]
  show ?case
  proof (cases r1)
    case (Some e)
    with a have "refreshCycles clocks (Suc n) s = (Some e, s1)" by simp
    with step show ?thesis by auto
  next
    case None
    with a have eq: "refreshCycles clocks (Suc n) s = refreshCycles clocks n s1" by simp
    let ?s' = "snd (refreshCycles clocks n s1)"
    from step Suc.prems have "K \<in> currentlyMovingActors s1" by simp
    note ih = Suc.IH [OF this]
    from a None have "hasRestoredPositions s1"
      by (simp add: onLatestPositionsChanged_sets_flag)
    then have c: "positionsClient ?s' = positionsClient s1"
      by (simp add: refreshCycles_restored)
    from step have ts: "tools (session s1) = tools (session s)" by simp
    from step ih show ?thesis
      unfolding eq c ts by (auto simp: map_option_hiddenActor_idem)
  qed
qed

text \<open>The theorem at a concrete state.\<close>

theorem C2_moving_actor_hidden_at_most_witness:
  "''T1_tool'' \<in> currentlyMovingActors ex_moving_panel
   \<and> (map_of (actors (snd (refreshCycles (\<lambda>n i. 0) 2 ex_moving_panel))) ''T1_tool''
         = map_of (actors ex_moving_panel) ''T1_tool''
       \<or> (\<exists>k tool. (k, tool) \<in> set (tools (session ex_moving_panel)) \<and>
              ''T1_tool'' \<in> set (actorKeysForTool k tool) \<and>
              noValidPosition
                (positionsClient (snd (refreshCycles (\<lambda>n i. 0) 2 ex_moving_panel))) tool) \<and>
          map_of (actors (snd (refreshCycles (\<lambda>n i. 0) 2 ex_moving_panel))) ''T1_tool''
            = map_option hiddenActor (map_of (actors ex_moving_panel) ''T1_tool''))"
proof -
  have h: "''T1_tool'' \<in> currentlyMovingActors ex_moving_panel"
    by (simp add: ex_defs)
  from C2_moving_actor_hidden_at_most [OF h, of "\<lambda>n i. 0" 2] h show ?thesis
    by blast
qed

text \<open>
  The claim as stated, that the refresh pass never mutates an actor whose key is in the
  MovingSet, fails: the tool \<open>T1\<close> is inactive, its tool actor is visible and under
  manipulation, and one refresh pass turns the actor's visibility off.
\<close>

theorem C2_counterexample:
  "''T1_tool'' \<in> currentlyMovingActors ex_inactive_panel
   \<and> map_of (actors ex_inactive_panel) ''T1_tool'' = Some (ex_actor 7 ''T1_tool'' True)
   \<and> map_of (actors (snd (onLatestPositionsChanged (\<lambda>i. 0) ex_inactive_panel))) ''T1_tool''
       = Some (ex_actor 7 ''T1_tool'' False)"
  by (simp add: ex_defs refresh_defs)

section \<open>Actors of a tool without a valid position\<close>

text \<open>
  Claim C10. After a refresh pass that reaches the rendering loop and returns without an
  exception, every actor of a tool that is inactive or has no pose (in the positions
  client as the restore leaves it) is the actor it was with its visibility turned off.
  The branch comes before the test of the MovingSet, so nothing is assumed about the
  actor key being in the MovingSet or not. The keys of \<open>session.tools\<close> are those of a
  dict, hence distinct.
\<close>

theorem C10_inactive_tool_actors_hidden:
  assumes run: "onLatestPositionsChanged clock s = (None, s')"
    and init: "hasInitialized s \<or> isInitializing s"
    and keys: "distinct (map fst (tools (session s)))"
    and tool: "(k, tool) \<in> set (tools (session s))"
    and inactive: "noValidPosition (positionsClient s') tool"
    and actor: "K \<in> set (actorKeysForTool k tool)"
  shows "map_of (actors s') K = map_option hiddenActor (map_of (actors s) K)"
  using run
proof (cases rule: onLatestPositionsChanged_cases)
  case (restore_failed e c)
  then show ?thesis by simp
next
  case (rendered s2)
  from init rendered(9) have rt: "refreshTools (tools (session s)) s2 = (None, s')" by auto
  from refreshTools_invariant [OF rt] inactive
  have "noValidPosition (positionsClient s2) tool" by simp
  from refreshTools_hides [OF rt keys tool this actor] rendered(1) show ?thesis by simp
qed

text \<open>The theorem at a concrete state.\<close>

theorem C10_inactive_tool_actors_hidden_witness:
  "''T1_tool'' \<in> currentlyMovingActors ex_inactive_panel
   \<and> fst (onLatestPositionsChanged (\<lambda>i. 0) ex_inactive_panel) = None
   \<and> noValidPosition
        (positionsClient (snd (onLatestPositionsChanged (\<lambda>i. 0) ex_inactive_panel)))
        ((ex_tool ''T1'')\<lparr>isActive := False\<rparr>)
   \<and> map_of (actors (snd (onLatestPositionsChanged (\<lambda>i. 0) ex_inactive_panel))) ''T1_tool''
       = map_option hiddenActor (map_of (actors ex_inactive_panel) ''T1_tool'')"
proof -
  let ?s' = "snd (onLatestPositionsChanged (\<lambda>i. 0) ex_inactive_panel)"
  have moving: "''T1_tool'' \<in> currentlyMovingActors ex_inactive_panel"
    by (simp add: ex_defs)
  have f: "fst (onLatestPositionsChanged (\<lambda>i. 0) ex_inactive_panel) = None"
    by (simp add: ex_defs refresh_defs)
  then have run: "onLatestPositionsChanged (\<lambda>i. 0) ex_inactive_panel = (None, ?s')"
    by (cases "onLatestPositionsChanged (\<lambda>i. 0) ex_inactive_panel") simp
  have init: "hasInitialized ex_inactive_panel \<or> isInitializing ex_inactive_panel"
    by (simp add: ex_defs)
  have keys: "distinct (map fst (tools (session ex_inactive_panel)))"
    by (simp add: ex_defs)
  have tool: "(''T1'', (ex_tool ''T1'')\<lparr>isActive := False\<rparr>) \<in> set (tools (session ex_inactive_panel))"
    by (simp add: ex_defs)
  have inactive: "noValidPosition (positionsClient ?s') ((ex_tool ''T1'')\<lparr>isActive := False\<rparr>)"
    by (simp add: noValidPosition_def ex_defs)
  have actor: "''T1_tool'' \<in> set (actorKeysForTool ''T1'' ((ex_tool ''T1'')\<lparr>isActive := False\<rparr>))"
    by (simp add: actorKeysForTool_def)
  from C10_inactive_tool_actors_hidden [OF run init keys tool inactive actor] moving f inactive
  show ?thesis by simp
qed

section \<open>Entity set changes\<close>









end
